theory Spec2Isabelle
  imports Main "HOL-Library.Sublist" "HOL-Library.AList"
begin

section \<open>The envy launcher: retry loop, failure classifier and dependency resolver\<close>

text \<open>
  A shallow embedding of the adaptive retry loop of \<^verbatim>\<open>envy.py\<close>:
  \<^verbatim>\<open>run_application\<close>, \<^verbatim>\<open>run_app_in_venv\<close>, \<^verbatim>\<open>handle_missing_dependencies\<close>,
  \<^verbatim>\<open>find_missing_modules\<close>, \<^verbatim>\<open>is_local_module\<close>, \<^verbatim>\<open>install_single_dependency\<close> and the
  part of \<^verbatim>\<open>main\<close> that starts the loop.

  Conventions of the model.
  \<^item> A Python \<^verbatim>\<open>str\<close> is a \<open>pystr\<close>: the list of its code points. The literals of the
    source are ASCII and written \<open>str ''...''\<close>.
  \<^item> Everything outside the interpreter is a \<open>world\<close>: the platform, the process
    environment, the file system beside the target, the outcome of every child process as
    a function of all that happened before it, the longest sleep the platform accepts, and
    the Unicode database for the code points beyond ASCII.
  \<^item> The error output that a child process leaves is text that decodes.
  \<^item> Every child process and every sleep is appended to a chronological trace of events,
    which is the only state the functions pass along.
  \<^item> A Python exception is a value of \<open>py_exc\<close>; a function that may raise returns
    \<open>py_exc + 'a\<close>. Calls to \<^verbatim>\<open>logging\<close> are left out.
\<close>

subsection \<open>Strings\<close>

type_synonym pystr = "int list"

definition str :: "string \<Rightarrow> pystr" where
  "str s = map of_char s"

definition sq :: int where
  \<comment> \<open>the single quote\<close>
  "sq = 39"

definition dq :: int where
  \<comment> \<open>the double quote\<close>
  "dq = 34"

fun strip_prefix :: "'a list \<Rightarrow> 'a list \<Rightarrow> 'a list option" where
  "strip_prefix [] s = Some s"
| "strip_prefix (p # ps) [] = None"
| "strip_prefix (p # ps) (c # cs) = (if p = c then strip_prefix ps cs else None)"

fun contains :: "'a list \<Rightarrow> 'a list \<Rightarrow> bool" where
  \<comment> \<open>\<^verbatim>\<open>sub in s\<close>\<close>
  "contains sub [] = (sub = [])"
| "contains sub (c # cs) = (strip_prefix sub (c # cs) \<noteq> None \<or> contains sub cs)"

subsection \<open>Paths\<close>

record path =
  drive :: pystr
  parts :: "pystr list"

text \<open>
  An absolute path, as \<^verbatim>\<open>Path.resolve()\<close> returns it in \<^verbatim>\<open>main\<close>: the components below
  the root, and the drive letter that only Windows prints.
\<close>

fun join_with :: "pystr \<Rightarrow> pystr list \<Rightarrow> pystr" where
  "join_with sep [] = []"
| "join_with sep [x] = x"
| "join_with sep (x # y # ys) = x @ sep @ join_with sep (y # ys)"

definition path_str :: "bool \<Rightarrow> path \<Rightarrow> pystr" where
  \<comment> \<open>\<^verbatim>\<open>str(p)\<close>; the flag is \<^verbatim>\<open>os.name == "nt"\<close>; 92 is the backslash\<close>
  "path_str nt p =
     (if nt then drive p @ str '':'' @ [92] @ join_with [92] (parts p)
      else str ''/'' @ join_with (str ''/'') (parts p))"

definition parent :: "path \<Rightarrow> path" where
  "parent p = p\<lparr>parts := butlast (parts p)\<rparr>"

definition path_div :: "path \<Rightarrow> pystr \<Rightarrow> path" where
  \<comment> \<open>\<^verbatim>\<open>p / name\<close> for a single component\<close>
  "path_div p name = p\<lparr>parts := parts p @ [name]\<rparr>"

subsection \<open>The world outside the interpreter\<close>

datatype proc_result =
    LaunchFailed
  | Exited int pystr

text \<open>
  What a \<^verbatim>\<open>subprocess\<close> call meets: the child could not be started (the call raises an
  \<^verbatim>\<open>OSError\<close>), or it ran and exited with a status and a text on standard error.
\<close>

datatype event =
    ExecTarget "pystr list" "(pystr \<times> pystr) list" bool proc_result
  | PipInstall pystr pystr proc_result
  | Sleep int

text \<open>
  \<open>ExecTarget argv env piped r\<close>: the target was launched with this command line and this
  environment, standard error captured or not, with outcome \<open>r\<close>.
  \<open>PipInstall pip package r\<close>: the command \<^verbatim>\<open>[pip, "install", package]\<close> with outcome \<open>r\<close>.
  \<open>Sleep n\<close>: \<^verbatim>\<open>time.sleep(n)\<close> returned.
\<close>

record world =
  os_nt :: bool
  environ :: "(pystr \<times> pystr) list"
  path_exists :: "path \<Rightarrow> bool option"
  target_result :: "event list \<Rightarrow> pystr list \<Rightarrow> (pystr \<times> pystr) list \<Rightarrow> bool \<Rightarrow> proc_result"
  pip_result :: "event list \<Rightarrow> pystr \<Rightarrow> proc_result"
  sleep_max :: int
  unicode_alnum :: "int \<Rightarrow> bool"
  unicode_lower :: "pystr \<Rightarrow> pystr"

text \<open>
  \<open>path_exists W p\<close> is the answer of \<^verbatim>\<open>p.exists()\<close>, or \<open>None\<close> when the call raises an
  \<^verbatim>\<open>OSError\<close> (a name too long for the file system, a directory that may not be searched).
  \<open>sleep_max W\<close> is the largest number of seconds that \<^verbatim>\<open>time.sleep\<close> accepts; beyond it
  the call raises \<^verbatim>\<open>OverflowError\<close>.
  \<open>unicode_alnum W c\<close> says whether the code point \<open>c\<close> beyond ASCII is alphanumeric, and
  \<open>unicode_lower W s\<close> is \<^verbatim>\<open>s.lower()\<close> for a text \<open>s\<close> that is not all ASCII.
\<close>

datatype exit_site =
    InstallFailed
  | ResolveFailed
  | AttemptsExhausted

text \<open>
  The three places of the retry loop that call \<^verbatim>\<open>sys.exit(1)\<close>:
  \<^verbatim>\<open>install_single_dependency\<close> after a failed installation, \<^verbatim>\<open>run_application\<close> after
  "Failed to resolve dependencies", and \<^verbatim>\<open>run_application\<close> after "All attempts to run
  the application have failed". The code tells them apart by the message it logs.
\<close>

datatype py_exc =
    SystemExit int exit_site
  | OSError
  | ValueError
  | OverflowError

subsection \<open>Character classes and case\<close>

definition ascii_word :: "int \<Rightarrow> bool" where
  \<comment> \<open>digits, letters and the underscore of ASCII\<close>
  "ascii_word c =
     ((48 \<le> c \<and> c \<le> 57) \<or> (65 \<le> c \<and> c \<le> 90) \<or> c = 95 \<or> (97 \<le> c \<and> c \<le> 122))"

definition is_word_char :: "world \<Rightarrow> int \<Rightarrow> bool" where
  \<comment> \<open>the character class \<^verbatim>\<open>[\w\d_]\<close> of a pattern on \<^verbatim>\<open>str\<close>: the alphanumeric code points
      and the underscore\<close>
  "is_word_char W c = (if c < 128 then ascii_word c else unicode_alnum W c)"

definition is_quote :: "int \<Rightarrow> bool" where
  \<comment> \<open>the character class \<^verbatim>\<open>['\"]\<close>\<close>
  "is_quote c = (c = sq \<or> c = dq)"

definition ascii_lower :: "int \<Rightarrow> int" where
  "ascii_lower c = (if 65 \<le> c \<and> c \<le> 90 then c + 32 else c)"

definition lower :: "world \<Rightarrow> pystr \<Rightarrow> pystr" where
  \<comment> \<open>\<^verbatim>\<open>str.lower()\<close>\<close>
  "lower W s = (if list_all (\<lambda>c. c < 128) s then map ascii_lower s else unicode_lower W s)"

subsection \<open>The two patterns\<close>

definition match_quoted_name :: "world \<Rightarrow> pystr \<Rightarrow> pystr \<Rightarrow> (pystr \<times> pystr) option" where
  \<comment> \<open>The regular expression \<^verbatim>\<open>lit['\"]([\w\d_]+)['\"]\<close> matched at the start of \<open>s\<close>:
      the captured group and the text after the match. The greedy group takes the longest
      run of word characters; giving characters back cannot help, since the character
      after a shorter run is a word character and not a quote.\<close>
  "match_quoted_name W lit s =
     (case strip_prefix lit s of
        None \<Rightarrow> None
      | Some r1 \<Rightarrow>
          (case r1 of
             [] \<Rightarrow> None
           | q # r2 \<Rightarrow>
               if \<not> is_quote q then None
               else
                 let name = takeWhile (is_word_char W) r2;
                     r3 = dropWhile (is_word_char W) r2
                 in if name = [] then None
                    else (case r3 of
                            [] \<Rightarrow> None
                          | q' # r4 \<Rightarrow> if is_quote q' then Some (name, r4) else None)))"

function findall_quoted_name :: "world \<Rightarrow> pystr \<Rightarrow> pystr \<Rightarrow> pystr list" where
  \<comment> \<open>\<^verbatim>\<open>re.findall\<close> for a pattern of that shape: scan from the left, and after a match
      go on behind it.\<close>
  "findall_quoted_name W lit [] = []"
| "findall_quoted_name W lit (c # cs) =
     (case match_quoted_name W lit (c # cs) of
        Some (name, rest) \<Rightarrow> name # findall_quoted_name W lit rest
      | None \<Rightarrow> findall_quoted_name W lit cs)"
  by pat_completeness auto
termination
proof (relation "measure (\<lambda>(W, lit, s). length s)")
  show "wf (measure (\<lambda>(W, lit, s). length s))" by simp
next
  fix W :: world and lit :: pystr and c :: int and cs :: pystr
  show "((W, lit, cs), (W, lit, c # cs)) \<in> measure (\<lambda>(W, lit, s). length s)" by simp
next
  fix W :: world and lit :: pystr and c :: int and cs :: pystr and x2 :: "pystr \<times> pystr"
    and name rest :: pystr
  assume m: "match_quoted_name W lit (c # cs) = Some x2" and x2: "(name, rest) = x2"
  from m x2 obtain r1 where r1: "strip_prefix lit (c # cs) = Some r1"
    by (auto simp: match_quoted_name_def split: option.splits)
  have pre: "strip_prefix p s = Some r \<Longrightarrow> length r \<le> length s" for p s r :: pystr
    by (induction p s rule: strip_prefix.induct) (auto split: if_splits)
  from m x2 r1 obtain q r2 where r2: "r1 = q # r2"
    by (auto simp: match_quoted_name_def split: list.splits)
  from m x2 r1 r2 obtain q' where r3: "dropWhile (is_word_char W) r2 = q' # rest"
    by (auto simp: match_quoted_name_def Let_def split: list.splits if_splits)
  have "length (dropWhile (is_word_char W) r2) \<le> length r2"
    by (rule length_dropWhile_le)
  with r3 have "length rest < length r2" by simp
  moreover have "length r1 \<le> length (c # cs)" using pre [OF r1] .
  ultimately show "((W, lit, rest), (W, lit, c # cs)) \<in> measure (\<lambda>(W, lit, s). length s)"
    using r2 by simp
qed

subsection \<open>The failure classifier\<close>

definition QT_BINDINGS_SIGNATURE :: pystr where
  "QT_BINDINGS_SIGNATURE = str ''qtpy.QtBindingsNotFoundError: No Qt bindings could be found''"

definition find_missing_modules :: "world \<Rightarrow> pystr \<Rightarrow> pystr list" where
  "find_missing_modules W error_message =
     (let missing_modules = findall_quoted_name W (str ''No module named '') error_message;
          missing_modules =
            missing_modules @
            findall_quoted_name W (str ''ImportError: cannot import name '') error_message;
          missing_modules =
            (if contains QT_BINDINGS_SIGNATURE error_message
             then missing_modules @ [str ''PyQt5'']
             else missing_modules)
      in missing_modules)"

definition pattern_matches :: "world \<Rightarrow> pystr \<Rightarrow> pystr \<Rightarrow> pystr \<Rightarrow> pystr \<Rightarrow> bool" where
  \<comment> \<open>What the pattern denotes: \<open>s\<close> starts with the pattern's words, a quote, the
      identifier \<open>name\<close> (one word character or more), a quote, and goes on with \<open>rest\<close>.\<close>
  "pattern_matches W lit s name rest =
     (name \<noteq> [] \<and> (\<forall>c \<in> set name. is_word_char W c) \<and>
      (\<exists>q1 q2. is_quote q1 \<and> is_quote q2 \<and> s = lit @ [q1] @ name @ [q2] @ rest))"

definition name_at :: "world \<Rightarrow> pystr \<Rightarrow> pystr \<Rightarrow> pystr option" where
  \<comment> \<open>the identifier that the pattern captures when it is applied at the start of \<open>s\<close>\<close>
  "name_at W lit s =
     (if prefix lit s then
        (case drop (length lit) s of
           [] \<Rightarrow> None
         | q1 # r \<Rightarrow>
             (case dropWhile (is_word_char W) r of
                [] \<Rightarrow> None
              | q2 # rest \<Rightarrow>
                  if is_quote q1 \<and> is_quote q2 \<and> takeWhile (is_word_char W) r \<noteq> []
                  then Some (takeWhile (is_word_char W) r) else None))
      else None)"

definition names_everywhere :: "world \<Rightarrow> pystr \<Rightarrow> pystr \<Rightarrow> pystr list" where
  \<comment> \<open>What the specification asks of one pattern: for every position of the text, from
      left to right, the identifier captured there if the pattern matches there.\<close>
  "names_everywhere W lit s =
     concat (map (\<lambda>i. case name_at W lit (drop i s) of Some name \<Rightarrow> [name] | None \<Rightarrow> [])
                 [0..<length s])"

definition captured_by :: "world \<Rightarrow> pystr \<Rightarrow> pystr \<Rightarrow> pystr \<Rightarrow> bool" where
  \<comment> \<open>the identifier stands somewhere in the text, code point for code point, between
      two quotes right after the pattern's words\<close>
  "captured_by W lit s name =
     (\<exists>i rest. i < length s \<and> pattern_matches W lit (drop i s) name rest)"

definition dict_get :: "('k \<times> 'v) list \<Rightarrow> 'k \<Rightarrow> 'v \<Rightarrow> 'v" where
  \<comment> \<open>\<^verbatim>\<open>d.get(k, default)\<close>\<close>
  "dict_get d k dflt = (case map_of d k of Some v \<Rightarrow> v | None \<Rightarrow> dflt)"

definition MODULE_PACKAGE_MAP :: "(pystr \<times> pystr) list" where
  "MODULE_PACKAGE_MAP =
     [(str ''pil'', str ''Pillow''), (str ''qtawesome'', str ''qtawesome''),
      (str ''qt_material'', str ''qt-material'')]"

definition SECONDARY_MODULES :: "pystr set" where
  "SECONDARY_MODULES = {str ''qtawesome'', str ''qt_material''}"

definition scripts_dir :: "world \<Rightarrow> pystr" where
  \<comment> \<open>\<^verbatim>\<open>"Scripts" if os.name == "nt" else "bin"\<close>\<close>
  "scripts_dir W = (if os_nt W then str ''Scripts'' else str ''bin'')"

definition pathsep :: "world \<Rightarrow> pystr" where
  \<comment> \<open>\<^verbatim>\<open>os.pathsep\<close>\<close>
  "pathsep W = (if os_nt W then str '';'' else str '':'')"

subsection \<open>The process runner\<close>

definition run_app_in_venv ::
  "world \<Rightarrow> path \<Rightarrow> path \<Rightarrow> pystr list \<Rightarrow> event list \<Rightarrow> bool \<times> event list" where
  "run_app_in_venv W venv_path app_path app_args tr =
     (let python_executable = path_div (path_div venv_path (scripts_dir W)) (str ''python'');
          app_dir = parent app_path;
          env = environ W;
          existing_pythonpath = dict_get env (str ''PYTHONPATH'') [];
          env = AList.update (str ''PYTHONPATH'')
                  (if existing_pythonpath \<noteq> []
                   then path_str (os_nt W) app_dir @ pathsep W @ existing_pythonpath
                   else path_str (os_nt W) app_dir) env;
          argv = [path_str (os_nt W) python_executable, path_str (os_nt W) app_path] @ app_args;
          r = target_result W tr argv env False;
          tr' = tr @ [ExecTarget argv env False r]
      in case r of
           Exited returncode err \<Rightarrow> if returncode = 0 then (True, tr') else (False, tr')
         | LaunchFailed \<Rightarrow> (False, tr'))"

subsection \<open>The dependency resolver\<close>

definition install_single_dependency ::
  "world \<Rightarrow> path \<Rightarrow> pystr \<Rightarrow> event list \<Rightarrow> (py_exc + unit) \<times> event list" where
  "install_single_dependency W venv_path package tr =
     (let pip_executable = path_div (path_div venv_path (scripts_dir W)) (str ''pip'');
          r = pip_result W tr package;
          tr' = tr @ [PipInstall (path_str (os_nt W) pip_executable) package r]
      in case r of
           Exited returncode err \<Rightarrow>
             if returncode = 0 then (Inr (), tr') else (Inl (SystemExit 1 InstallFailed), tr')
         | LaunchFailed \<Rightarrow> (Inl OSError, tr'))"

definition is_local_module :: "world \<Rightarrow> path \<Rightarrow> path \<Rightarrow> pystr \<Rightarrow> py_exc + bool" where
  \<comment> \<open>\<^verbatim>\<open>a.exists() or b.exists()\<close>: the second call is made only when the first answers
      false, and either call may raise\<close>
  "is_local_module W venv_path app_path module =
     (let app_dir = parent app_path;
          local_module = path_div app_dir (module @ str ''.py'');
          local_package_init = path_div (path_div app_dir module) (str ''__init__.py'')
      in case path_exists W local_module of
           None \<Rightarrow> Inl OSError
         | Some True \<Rightarrow> Inr True
         | Some False \<Rightarrow>
             (case path_exists W local_package_init of
                None \<Rightarrow> Inl OSError
              | Some True \<Rightarrow> Inr True
              | Some False \<Rightarrow> Inr False))"

fun split_modules :: "world \<Rightarrow> pystr list \<Rightarrow> pystr list \<Rightarrow> pystr list \<Rightarrow> pystr list \<times> pystr list" where
  \<comment> \<open>the loop that fills \<^verbatim>\<open>primary_modules\<close> and \<^verbatim>\<open>secondary_modules_detected\<close>\<close>
  "split_modules W [] primary_modules secondary_modules_detected =
     (primary_modules, secondary_modules_detected)"
| "split_modules W (module # rest) primary_modules secondary_modules_detected =
     (if lower W module \<in> SECONDARY_MODULES
      then split_modules W rest primary_modules (secondary_modules_detected @ [module])
      else split_modules W rest (primary_modules @ [module]) secondary_modules_detected)"

fun install_modules ::
  "world \<Rightarrow> path \<Rightarrow> path \<Rightarrow> pystr list \<Rightarrow> event list \<Rightarrow> (py_exc + unit) \<times> event list" where
  \<comment> \<open>each of the two iterations \<^verbatim>\<open>for module in ...: skip if local, map, install\<close>\<close>
  "install_modules W venv_path app_path [] tr = (Inr (), tr)"
| "install_modules W venv_path app_path (module # rest) tr =
     (case is_local_module W venv_path app_path module of
        Inl e \<Rightarrow> (Inl e, tr)
      | Inr local \<Rightarrow>
          if local then install_modules W venv_path app_path rest tr
          else
            let package = dict_get MODULE_PACKAGE_MAP (lower W module) module
            in case install_single_dependency W venv_path package tr of
                 (Inl e, tr') \<Rightarrow> (Inl e, tr')
               | (Inr u, tr') \<Rightarrow> install_modules W venv_path app_path rest tr')"

definition resolve_modules ::
  "world \<Rightarrow> path \<Rightarrow> path \<Rightarrow> pystr \<Rightarrow> event list \<Rightarrow> (py_exc + bool) \<times> event list" where
  \<comment> \<open>the body of \<^verbatim>\<open>if result.returncode != 0:\<close>; falling out of it is the final
      \<^verbatim>\<open>return False\<close>\<close>
  "resolve_modules W venv_path app_path error_message tr =
     (let missing_modules = find_missing_modules W error_message
      in if missing_modules \<noteq> [] then
           let (primary_modules, secondary_modules_detected) =
                 split_modules W missing_modules [] []
           in case install_modules W venv_path app_path primary_modules tr of
                (Inl e, tr') \<Rightarrow> (Inl e, tr')
              | (Inr u, tr') \<Rightarrow>
                  (case install_modules W venv_path app_path secondary_modules_detected tr' of
                     (Inl e, tr'') \<Rightarrow> (Inl e, tr'')
                   | (Inr u, tr'') \<Rightarrow> (Inr True, tr''))
         else if contains QT_BINDINGS_SIGNATURE error_message then
           (case install_single_dependency W venv_path (str ''PyQt5'') tr of
              (Inl e, tr') \<Rightarrow> (Inl e, tr')
            | (Inr u, tr') \<Rightarrow> (Inr True, tr'))
         else (Inr False, tr))"

definition handle_missing_dependencies ::
  "world \<Rightarrow> path \<Rightarrow> path \<Rightarrow> pystr list \<Rightarrow> bool \<Rightarrow> event list \<Rightarrow> (py_exc + bool) \<times> event list" where
  \<comment> \<open>The two handlers catch every \<^verbatim>\<open>Exception\<close> and fall to \<^verbatim>\<open>return False\<close>;
      \<^verbatim>\<open>SystemExit\<close> is not an \<^verbatim>\<open>Exception\<close> and goes through.\<close>
  "handle_missing_dependencies W venv_path app_path app_args force_install tr =
     (let python_executable = path_div (path_div venv_path (scripts_dir W)) (str ''python'');
          argv = [path_str (os_nt W) python_executable, path_str (os_nt W) app_path] @ app_args;
          result = target_result W tr argv (environ W) True;
          tr1 = tr @ [ExecTarget argv (environ W) True result]
      in case result of
           LaunchFailed \<Rightarrow> (Inr False, tr1)
         | Exited returncode err \<Rightarrow>
             if returncode \<noteq> 0 then
               (case resolve_modules W venv_path app_path err tr1 of
                  (Inl (SystemExit code site), tr2) \<Rightarrow> (Inl (SystemExit code site), tr2)
                | (Inl OSError, tr2) \<Rightarrow> (Inr False, tr2)
                | (Inl ValueError, tr2) \<Rightarrow> (Inr False, tr2)
                | (Inl OverflowError, tr2) \<Rightarrow> (Inr False, tr2)
                | (Inr resolved, tr2) \<Rightarrow> (Inr resolved, tr2))
             else (Inr False, tr1))"

subsection \<open>The retry orchestrator\<close>

function run_loop ::
  "world \<Rightarrow> path \<Rightarrow> path \<Rightarrow> pystr list \<Rightarrow> bool \<Rightarrow> int \<Rightarrow> nat \<Rightarrow> nat \<Rightarrow> event list
     \<Rightarrow> (py_exc + unit) \<times> event list" where
  \<comment> \<open>the \<^verbatim>\<open>while attempt <= max_attempts\<close> loop and the exit behind it;
      \<^verbatim>\<open>time.sleep\<close> raises \<^verbatim>\<open>ValueError\<close> on a negative argument and
      \<^verbatim>\<open>OverflowError\<close> on one that is too large\<close>
  "run_loop W venv_path app_path app_args force_install delay_seconds max_attempts attempt tr =
     (if attempt \<le> max_attempts then
        let (success, tr1) = run_app_in_venv W venv_path app_path app_args tr
        in if success then (Inr (), tr1)
           else if attempt < max_attempts then
             let (dependencies_resolved, tr2) =
                   handle_missing_dependencies W venv_path app_path app_args force_install tr1
             in (case dependencies_resolved of
                   Inl e \<Rightarrow> (Inl e, tr2)
                 | Inr resolved \<Rightarrow>
                     if resolved then
                       if delay_seconds < 0 then (Inl ValueError, tr2)
                       else if sleep_max W < delay_seconds then (Inl OverflowError, tr2)
                       else run_loop W venv_path app_path app_args force_install delay_seconds
                              max_attempts (attempt + 1) (tr2 @ [Sleep delay_seconds])
                     else (Inl (SystemExit 1 ResolveFailed), tr2))
           else run_loop W venv_path app_path app_args force_install delay_seconds
                  max_attempts (attempt + 1) tr1
      else (Inl (SystemExit 1 AttemptsExhausted), tr))"
  by pat_completeness auto
termination
  by (relation "measure (\<lambda>(W, v, a, args, f, d, max_attempts, attempt, tr). max_attempts + 1 - attempt)")
     auto

declare run_loop.simps [simp del]

definition run_application ::
  "world \<Rightarrow> path \<Rightarrow> path \<Rightarrow> pystr list \<Rightarrow> bool \<Rightarrow> int \<Rightarrow> event list
     \<Rightarrow> (py_exc + unit) \<times> event list" where
  \<comment> \<open>\<^verbatim>\<open>max_attempts = 12\<close>, \<^verbatim>\<open>attempt = 1\<close>\<close>
  "run_application W venv_path app_path app_args force_install delay_seconds tr =
     run_loop W venv_path app_path app_args force_install delay_seconds 12 1 tr"

subsection \<open>Starting the loop\<close>

definition thread_start_join :: "(py_exc + unit) \<times> event list \<Rightarrow> (py_exc + unit) \<times> event list" where
  \<comment> \<open>\<^verbatim>\<open>app_thread.start(); app_thread.join()\<close>: an exception that leaves the target of a
      \<^verbatim>\<open>threading.Thread\<close>, \<^verbatim>\<open>SystemExit\<close> included, ends that thread alone, and
      \<^verbatim>\<open>join\<close> returns normally in the thread that called it.\<close>
  "thread_start_join r = (Inr (), snd r)"

definition main_launch ::
  "world \<Rightarrow> path \<Rightarrow> path \<Rightarrow> pystr list \<Rightarrow> bool \<Rightarrow> int \<Rightarrow> event list
     \<Rightarrow> (py_exc + unit) \<times> event list" where
  \<comment> \<open>the end of \<^verbatim>\<open>main\<close>: the loop runs as the target of a thread, then \<^verbatim>\<open>main\<close> returns\<close>
  "main_launch W venv_path app_path app_args force_install delay_seconds tr =
     thread_start_join (run_application W venv_path app_path app_args force_install delay_seconds tr)"

definition process_exit_status :: "py_exc + unit \<Rightarrow> int" where
  \<comment> \<open>the block under \<^verbatim>\<open>if __name__ == "__main__"\<close>: \<^verbatim>\<open>main\<close> returned, or raised
      \<^verbatim>\<open>SystemExit\<close>, or raised an \<^verbatim>\<open>Exception\<close>, which the handler turns into
      \<^verbatim>\<open>sys.exit(1)\<close>\<close>
  "process_exit_status r =
     (case r of
        Inr u \<Rightarrow> 0
      | Inl (SystemExit code site) \<Rightarrow> code
      | Inl OSError \<Rightarrow> 1
      | Inl ValueError \<Rightarrow> 1
      | Inl OverflowError \<Rightarrow> 1)"

definition launcher_exit_status ::
  "world \<Rightarrow> path \<Rightarrow> path \<Rightarrow> pystr list \<Rightarrow> bool \<Rightarrow> int \<Rightarrow> event list \<Rightarrow> int" where
  "launcher_exit_status W venv_path app_path app_args force_install delay_seconds tr =
     process_exit_status
       (fst (main_launch W venv_path app_path app_args force_install delay_seconds tr))"

subsection \<open>Reading a trace\<close>

fun is_exec :: "event \<Rightarrow> bool" where
  "is_exec (ExecTarget argv env piped r) = True"
| "is_exec (PipInstall pip package r) = False"
| "is_exec (Sleep n) = False"

fun is_primary_exec :: "event \<Rightarrow> bool" where
  \<comment> \<open>launched by \<^verbatim>\<open>run_app_in_venv\<close>: standard error goes through\<close>
  "is_primary_exec (ExecTarget argv env piped r) = (\<not> piped)"
| "is_primary_exec (PipInstall pip package r) = False"
| "is_primary_exec (Sleep n) = False"

fun is_diagnostic_exec :: "event \<Rightarrow> bool" where
  \<comment> \<open>launched by \<^verbatim>\<open>handle_missing_dependencies\<close>: standard error is captured\<close>
  "is_diagnostic_exec (ExecTarget argv env piped r) = piped"
| "is_diagnostic_exec (PipInstall pip package r) = False"
| "is_diagnostic_exec (Sleep n) = False"

fun is_install :: "event \<Rightarrow> bool" where
  "is_install (PipInstall pip package r) = True"
| "is_install (ExecTarget argv env piped r) = False"
| "is_install (Sleep n) = False"

definition executions :: "event list \<Rightarrow> nat" where
  "executions tr = length (filter is_exec tr)"

definition primary_executions :: "event list \<Rightarrow> nat" where
  "primary_executions tr = length (filter is_primary_exec tr)"

definition diagnostic_executions :: "event list \<Rightarrow> nat" where
  "diagnostic_executions tr = length (filter is_diagnostic_exec tr)"

fun packages_of :: "event list \<Rightarrow> pystr list" where
  \<comment> \<open>the packages handed to \<^verbatim>\<open>pip install\<close>, in order\<close>
  "packages_of [] = []"
| "packages_of (PipInstall pip package r # es) = package # packages_of es"
| "packages_of (ExecTarget argv env piped r # es) = packages_of es"
| "packages_of (Sleep n # es) = packages_of es"

fun pip_succeeded :: "event \<Rightarrow> bool" where
  \<comment> \<open>false exactly for an installation that exited non-zero or could not be started\<close>
  "pip_succeeded (PipInstall pip package (Exited returncode err)) = (returncode = 0)"
| "pip_succeeded (PipInstall pip package LaunchFailed) = False"
| "pip_succeeded (ExecTarget argv env piped r) = True"
| "pip_succeeded (Sleep n) = True"

fun answers_of_world :: "world \<Rightarrow> event list \<Rightarrow> event list \<Rightarrow> bool" where
  \<comment> \<open>\<open>answers_of_world W tr es\<close>: every installation among the events \<open>es\<close>, which follow
      the trace \<open>tr\<close>, carries the outcome that the world gives at that moment\<close>
  "answers_of_world W tr [] = True"
| "answers_of_world W tr (PipInstall pip package r # es) =
     (r = pip_result W tr package \<and> answers_of_world W (tr @ [PipInstall pip package r]) es)"
| "answers_of_world W tr (ExecTarget argv env piped r # es) =
     answers_of_world W (tr @ [ExecTarget argv env piped r]) es"
| "answers_of_world W tr (Sleep n # es) = answers_of_world W (tr @ [Sleep n]) es"

definition package_for :: "world \<Rightarrow> pystr \<Rightarrow> pystr" where
  \<comment> \<open>\<^verbatim>\<open>MODULE_PACKAGE_MAP.get(module.lower(), module)\<close>\<close>
  "package_for W module = dict_get MODULE_PACKAGE_MAP (lower W module) module"

definition primary_packages :: "world \<Rightarrow> path \<Rightarrow> path \<Rightarrow> pystr list \<Rightarrow> pystr list" where
  \<comment> \<open>the packages of the identifiers outside the denylist that are not local modules\<close>
  "primary_packages W venv_path app_path ids =
     map (package_for W)
       [m \<leftarrow> ids. lower W m \<notin> SECONDARY_MODULES \<and>
                  is_local_module W venv_path app_path m = Inr False]"

definition secondary_packages :: "world \<Rightarrow> path \<Rightarrow> path \<Rightarrow> pystr list \<Rightarrow> pystr list" where
  \<comment> \<open>the packages of the identifiers on the denylist that are not local modules\<close>
  "secondary_packages W venv_path app_path ids =
     map (package_for W)
       [m \<leftarrow> ids. lower W m \<in> SECONDARY_MODULES \<and>
                  is_local_module W venv_path app_path m = Inr False]"

definition checks_answer :: "world \<Rightarrow> path \<Rightarrow> path \<Rightarrow> pystr list \<Rightarrow> bool" where
  \<comment> \<open>no identifier of the list makes \<^verbatim>\<open>is_local_module\<close> raise\<close>
  "checks_answer W venv_path app_path ids =
     list_all (\<lambda>m. is_local_module W venv_path app_path m \<noteq> Inl OSError) ids"

definition identifiers_of :: "world \<Rightarrow> proc_result \<Rightarrow> pystr list" where
  \<comment> \<open>what the classifier is given by a diagnostic execution, if anything\<close>
  "identifiers_of W r =
     (case r of
        LaunchFailed \<Rightarrow> []
      | Exited returncode err \<Rightarrow> if returncode \<noteq> 0 then find_missing_modules W err else [])"

subsection \<open>Concrete worlds\<close>

definition venv0 :: path where
  "venv0 = \<lparr>drive = str ''C'', parts = [str ''home'', str ''u'', str ''.local'', str ''envy'']\<rparr>"

definition app0 :: path where
  "app0 = \<lparr>drive = str ''C'', parts = [str ''home'', str ''u'', str ''proj'', str ''app.py'']\<rparr>"

definition argv0 :: "pystr list" where
  \<comment> \<open>the command line of the target for \<open>venv0\<close> and \<open>app0\<close> without arguments\<close>
  "argv0 = [str ''/home/u/.local/envy/bin/python'', str ''/home/u/proj/app.py'']"

definition env0 :: "(pystr \<times> pystr) list" where
  \<comment> \<open>the environment that \<^verbatim>\<open>run_app_in_venv\<close> builds from an empty one for \<open>app0\<close>\<close>
  "env0 = [(str ''PYTHONPATH'', str ''/home/u/proj'')]"

definition pip0 :: pystr where
  "pip0 = str ''/home/u/.local/envy/bin/pip''"

definition no_module_named :: "pystr \<Rightarrow> pystr" where
  "no_module_named m = str ''ModuleNotFoundError: No module named '' @ [sq] @ m @ [sq]"

definition world_unrecognised :: world where
  \<comment> \<open>the target always exits 1 with a message no pattern recognises; of the code
      points beyond ASCII only 233, the letter e with acute accent, is alphanumeric\<close>
  "world_unrecognised =
     \<lparr>os_nt = False, environ = [], path_exists = (\<lambda>p. Some False),
      target_result = (\<lambda>tr argv env piped. Exited 1 (str ''boom'')),
      pip_result = (\<lambda>tr package. Exited 0 []),
      sleep_max = 9223372036,
      unicode_alnum = (\<lambda>c. c = 233),
      unicode_lower = (\<lambda>s. s)\<rparr>"

definition world_recurring :: world where
  \<comment> \<open>the target always exits 1 reporting the same missing module; pip succeeds\<close>
  "world_recurring =
     world_unrecognised
       \<lparr>target_result := (\<lambda>tr argv env piped. Exited 1 (no_module_named (str ''requests'')))\<rparr>"

definition world_local_only :: world where
  \<comment> \<open>the reported module is the file \<^verbatim>\<open>helper.py\<close> beside the target\<close>
  "world_local_only =
     world_unrecognised
       \<lparr>path_exists :=
          (\<lambda>p. Some (parts p = [str ''home'', str ''u'', str ''proj'', str ''helper.py''])),
        target_result := (\<lambda>tr argv env piped. Exited 1 (no_module_named (str ''helper'')))\<rparr>"

definition mixed_message :: pystr where
  "mixed_message =
     no_module_named (str ''qtawesome'') @ no_module_named (str ''helper'') @
     no_module_named (str ''PIL'') @ no_module_named (str ''requests'')"

definition world_mixed :: world where
  \<comment> \<open>one message names a secondary module, a local module and two primary modules\<close>
  "world_mixed =
     world_local_only\<lparr>target_result := (\<lambda>tr argv env piped. Exited 1 mixed_message)\<rparr>"

definition world_qtawesome :: world where
  "world_qtawesome =
     world_unrecognised
       \<lparr>target_result := (\<lambda>tr argv env piped. Exited 1 (no_module_named (str ''qtawesome'')))\<rparr>"


definition world_launch_once :: world where
  \<comment> \<open>the first launch fails to start; then the target reports a missing module until
      something has been installed\<close>
  "world_launch_once =
     world_unrecognised
       \<lparr>target_result := (\<lambda>tr argv env piped.
          if tr = [] then LaunchFailed
          else if packages_of tr = [] then Exited 1 (no_module_named (str ''requests''))
          else Exited 0 [])\<rparr>"

definition world_pip_fails :: world where
  \<comment> \<open>the target reports a missing module and its installation exits 1\<close>
  "world_pip_fails = world_recurring\<lparr>pip_result := (\<lambda>tr package. Exited 1 [])\<rparr>"

definition world_no_launch :: world where
  \<comment> \<open>the interpreter of the environment is missing: no launch ever starts\<close>
  "world_no_launch =
     world_unrecognised\<lparr>target_result := (\<lambda>tr argv env piped. LaunchFailed)\<rparr>"

definition cafe :: pystr where
  \<comment> \<open>an identifier with a letter beyond ASCII\<close>
  "cafe = str ''caf'' @ [233]"

definition classifier_example :: pystr where
  \<comment> \<open>an error output with a repeated identifier, both kinds of quotes, an identifier
      beyond ASCII, a dotted name that the pattern does not capture, the second pattern and
      the signature\<close>
  "classifier_example =
     str ''Traceback: No module named '' @ [sq] @ str ''numpy'' @ [sq] @
     str ''; No module named '' @ [dq] @ cafe @ [dq] @
     str ''; ImportError: cannot import name '' @ [sq] @ str ''foo'' @ [sq] @
     str ''; No module named '' @ [sq] @ str ''numpy'' @ [sq] @
     str ''; No module named '' @ [sq] @ str ''PIL.Image'' @ [sq] @
     str ''; qtpy.QtBindingsNotFoundError: No Qt bindings could be found''"

section \<open>Properties\<close>

subsection \<open>Strings and the two patterns\<close>

lemma strip_prefix_iff: "strip_prefix p s = Some r \<longleftrightarrow> s = p @ r"
  by (induction p s rule: strip_prefix.induct) auto

lemma strip_prefix_None_iff: "strip_prefix p s = None \<longleftrightarrow> \<not> prefix p s"
proof -
  have "strip_prefix p s \<noteq> None \<longleftrightarrow> (\<exists>r. s = p @ r)"
    using strip_prefix_iff [of p s] by auto
  then show ?thesis by (auto simp: prefix_def)
qed

lemma contains_iff: "contains sub s \<longleftrightarrow> (\<exists>a b. s = a @ sub @ b)"
proof
  show "contains sub s \<Longrightarrow> \<exists>a b. s = a @ sub @ b"
  proof (induction s)
    case Nil
    then show ?case by simp
  next
    case (Cons c cs)
    from Cons.prems consider r where "strip_prefix sub (c # cs) = Some r" | "contains sub cs"
      by auto
    then show ?case
    proof cases
      case 1
      then have "c # cs = [] @ sub @ r" by (simp add: strip_prefix_iff)
      then show ?thesis by blast
    next
      case 2
      with Cons.IH obtain a b where "cs = a @ sub @ b" by blast
      then have "c # cs = (c # a) @ sub @ b" by simp
      then show ?thesis by blast
    qed
  qed
next
  assume "\<exists>a b. s = a @ sub @ b"
  then obtain a b where s: "s = a @ sub @ b" by blast
  have "contains sub (a @ sub @ b)"
  proof (induction a)
    case Nil
    have sp: "strip_prefix sub (sub @ b) = Some b" by (simp add: strip_prefix_iff)
    show ?case
    proof (cases "sub @ b")
      case Nil
      then show ?thesis by simp
    next
      case (Cons c cs)
      with sp show ?thesis by simp
    qed
  next
    case (Cons x a)
    then show ?case by simp
  qed
  with s show "contains sub s" by simp
qed

lemma quote_not_word: "is_quote q \<Longrightarrow> \<not> is_word_char W q"
  by (auto simp: is_quote_def sq_def dq_def is_word_char_def ascii_word_def)

lemma match_quoted_name_iff:
  "match_quoted_name W lit s = Some (name, rest) \<longleftrightarrow> pattern_matches W lit s name rest"
proof
  assume m: "match_quoted_name W lit s = Some (name, rest)"
  then obtain r1 where r1: "strip_prefix lit s = Some r1"
    by (auto simp: match_quoted_name_def split: option.splits)
  with m obtain q r2 where r2: "r1 = q # r2" and q: "is_quote q"
    by (auto simp: match_quoted_name_def split: list.splits if_splits)
  from m r1 r2 q obtain q' where
    r3: "dropWhile (is_word_char W) r2 = q' # rest" and q': "is_quote q'"
    and name: "name = takeWhile (is_word_char W) r2" and ne: "name \<noteq> []"
    by (auto simp: match_quoted_name_def Let_def split: list.splits if_splits)
  have "r2 = takeWhile (is_word_char W) r2 @ dropWhile (is_word_char W) r2" by simp
  with r3 name have "r2 = name @ q' # rest" by simp
  with r1 r2 have "s = lit @ [q] @ name @ [q'] @ rest" by (simp add: strip_prefix_iff)
  moreover have "\<forall>c \<in> set name. is_word_char W c"
    using name by (auto dest: set_takeWhileD)
  ultimately show "pattern_matches W lit s name rest"
    unfolding pattern_matches_def using q q' ne by blast
next
  assume "pattern_matches W lit s name rest"
  then obtain q1 q2 where ne: "name \<noteq> []" and w: "\<forall>c \<in> set name. is_word_char W c"
    and q1: "is_quote q1" and q2: "is_quote q2" and s: "s = lit @ [q1] @ name @ [q2] @ rest"
    unfolding pattern_matches_def by blast
  from s have sp: "strip_prefix lit s = Some (q1 # name @ q2 # rest)"
    by (simp add: strip_prefix_iff)
  from w quote_not_word [OF q2, of W]
  have tw: "takeWhile (is_word_char W) (name @ q2 # rest) = name"
    and dw: "dropWhile (is_word_char W) (name @ q2 # rest) = q2 # rest"
    by (simp_all add: takeWhile_append2 dropWhile_append2)
  show "match_quoted_name W lit s = Some (name, rest)"
    unfolding match_quoted_name_def by (simp add: sp tw dw q1 q2 ne)
qed

lemma name_at_match: "name_at W lit s = map_option fst (match_quoted_name W lit s)"
proof (cases "strip_prefix lit s")
  case None
  then have "\<not> prefix lit s" by (simp add: strip_prefix_None_iff)
  with None show ?thesis
    by (simp add: name_at_def match_quoted_name_def)
next
  case (Some r1)
  then have s: "s = lit @ r1" by (simp add: strip_prefix_iff)
  then have p: "prefix lit s" and d: "drop (length lit) s = r1" by simp_all
  show ?thesis
  proof (cases r1)
    case Nil
    with Some p d show ?thesis by (simp add: name_at_def match_quoted_name_def)
  next
    case (Cons q1 r)
    show ?thesis
    proof (cases "dropWhile (is_word_char W) r")
      case Nil
      with Some p d Cons show ?thesis
        by (simp add: name_at_def match_quoted_name_def Let_def del: dropWhile_eq_Nil_conv)
    next
      case (Cons q2 rest)
      with Some p d \<open>r1 = q1 # r\<close> show ?thesis
        by (simp add: name_at_def match_quoted_name_def Let_def del: dropWhile_eq_Nil_conv)
    qed
  qed
qed

lemma name_at_iff:
  "name_at W lit s = Some name \<longleftrightarrow> (\<exists>rest. pattern_matches W lit s name rest)"
proof -
  have "name_at W lit s = Some name \<longleftrightarrow> (\<exists>rest. match_quoted_name W lit s = Some (name, rest))"
    by (auto simp: name_at_match)
  then show ?thesis by (simp add: match_quoted_name_iff)
qed

lemma names_everywhere_Nil: "names_everywhere W lit [] = []"
  by (simp add: names_everywhere_def)

lemma names_everywhere_Cons:
  "names_everywhere W lit (c # cs) =
     (case name_at W lit (c # cs) of Some name \<Rightarrow> [name] | None \<Rightarrow> []) @
     names_everywhere W lit cs"
proof -
  have "[0..<length (c # cs)] = 0 # map Suc [0..<length cs]"
    by (simp add: upt_conv_Cons map_Suc_upt del: upt_Suc)
  then show ?thesis
    by (simp add: names_everywhere_def comp_def del: upt_Suc)
qed

declare names_everywhere_Nil [code] names_everywhere_Cons [code]

lemma names_everywhere_captured:
  "name \<in> set (names_everywhere W lit s) \<Longrightarrow> captured_by W lit s name"
proof -
  assume "name \<in> set (names_everywhere W lit s)"
  then obtain i where i: "i < length s" and "name_at W lit (drop i s) = Some name"
    by (auto simp: names_everywhere_def split: option.splits)
  then obtain rest where "pattern_matches W lit (drop i s) name rest"
    by (auto simp: name_at_iff)
  with i show ?thesis unfolding captured_by_def by blast
qed

lemma no_match_inside:
  assumes lit: "lit \<noteq> []" and hd_once: "hd lit \<notin> set (tl lit)"
    and no_quote: "\<forall>c \<in> set lit. \<not> is_quote c"
    and not_word: "\<exists>c \<in> set lit. \<not> is_word_char W c"
    and q1: "is_quote q1" and q2: "is_quote q2"
    and name: "\<forall>c \<in> set name. is_word_char W c"
    and split: "lit @ [q1] @ name @ [q2] = u @ v" and u: "u \<noteq> []" and v: "v \<noteq> []"
  shows "\<not> prefix lit (v @ rest)"
proof
  assume "prefix lit (v @ rest)"
  then obtain z where z: "v @ rest = lit @ z" by (auto simp: prefix_def)
  with v lit have hdv: "hd v = hd lit"
    by (metis hd_append2)
  from lit no_quote have nq: "\<not> is_quote (hd lit)" by simp
  from split have "u @ v = lit @ ([q1] @ name @ [q2])" by simp
  then consider
      (A) w where "u @ w = lit" "v = w @ [q1] @ name @ [q2]"
    | (B) w where "u = lit @ w" "w @ v = [q1] @ name @ [q2]"
    by (auto simp: append_eq_append_conv2)
  then show False
  proof cases
    case A
    show False
    proof (cases "w = []")
      case True
      with A have "hd v = q1" by simp
      with hdv nq q1 show False by simp
    next
      case False
      with A have "hd v = hd w" by simp
      moreover from A(1) u have "tl lit = tl u @ w" by auto
      ultimately have "hd v \<in> set (tl lit)" using False by simp
      with hdv hd_once show False by simp
    qed
  next
    case B
    show False
    proof (cases w)
      case Nil
      with B have "hd v = q1" by simp
      with hdv nq q1 show False by simp
    next
      case (Cons c w')
      with B have "w' @ v = name @ [q2]" by simp
      then consider
          (B1) x where "w' @ x = name" "v = x @ [q2]"
        | (B2) x where "w' = name @ x" "x @ v = [q2]"
        by (auto simp: append_eq_append_conv2)
      then show False
      proof cases
        case B2
        with v have "v = [q2]" by (auto simp: append_eq_Cons_conv)
        then have "hd v = q2" by simp
        with hdv nq q2 show False by simp
      next
        case B1
        show False
        proof (cases "x = []")
          case True
          with B1 have "hd v = q2" by simp
          with hdv nq q2 show False by simp
        next
          case False
          from B1 name have xw: "\<forall>c \<in> set x. is_word_char W c" by auto
          from z B1 have "lit @ z = x @ (q2 # rest)" by simp
          then consider
              (C1) y where "lit @ y = x"
            | (C2) y where "lit = x @ y" "y @ z = q2 # rest"
            by (auto simp: append_eq_append_conv2)
          then show False
          proof cases
            case C1
            then have "set lit \<subseteq> set x" by auto
            with xw not_word show False by blast
          next
            case C2
            show False
            proof (cases y)
              case Nil
              with C2 have "lit = x" by simp
              with xw not_word show False by blast
            next
              case (Cons c' y')
              with C2 have "q2 \<in> set lit" by auto
              with no_quote q2 show False by blast
            qed
          qed
        qed
      qed
    qed
  qed
qed

lemma names_everywhere_skip:
  assumes lit: "lit \<noteq> []" and hd_once: "hd lit \<notin> set (tl lit)"
    and no_quote: "\<forall>c \<in> set lit. \<not> is_quote c"
    and not_word: "\<exists>c \<in> set lit. \<not> is_word_char W c"
    and q1: "is_quote q1" and q2: "is_quote q2"
    and name: "\<forall>c \<in> set name. is_word_char W c"
  shows "\<exists>u. u \<noteq> [] \<and> lit @ [q1] @ name @ [q2] = u @ v \<Longrightarrow>
    names_everywhere W lit (v @ rest) = names_everywhere W lit rest"
proof (induction v)
  case Nil
  show ?case by simp
next
  case (Cons c v)
  from Cons.prems obtain u where u: "u \<noteq> []" and s: "lit @ [q1] @ name @ [q2] = u @ c # v"
    by blast
  from no_match_inside [OF lit hd_once no_quote not_word q1 q2 name s u, of rest]
  have "name_at W lit ((c # v) @ rest) = None" by (simp add: name_at_def)
  moreover have "names_everywhere W lit (v @ rest) = names_everywhere W lit rest"
  proof (rule Cons.IH)
    from s have "lit @ [q1] @ name @ [q2] = (u @ [c]) @ v" by simp
    then show "\<exists>u. u \<noteq> [] \<and> lit @ [q1] @ name @ [q2] = u @ v" by blast
  qed
  ultimately show ?case by (simp add: names_everywhere_Cons)
qed

lemma findall_names_everywhere:
  assumes lit: "lit \<noteq> []" and hd_once: "hd lit \<notin> set (tl lit)"
    and no_quote: "\<forall>c \<in> set lit. \<not> is_quote c"
    and not_word: "\<exists>c \<in> set lit. \<not> is_word_char W c"
  shows "findall_quoted_name W lit s = names_everywhere W lit s"
  using assms
proof (induction W lit s rule: findall_quoted_name.induct)
  case (1 W lit)
  show ?case by (simp add: names_everywhere_Nil)
next
  case (2 W lit c cs)
  show ?case
  proof (cases "match_quoted_name W lit (c # cs)")
    case None
    then have "name_at W lit (c # cs) = None" by (simp add: name_at_match)
    with None "2.IH"(1) [OF None "2.prems"] show ?thesis
      by (simp add: names_everywhere_Cons)
  next
    case (Some x)
    obtain n rest where x: "x = (n, rest)" by (cases x)
    from Some x have m: "match_quoted_name W lit (c # cs) = Some (n, rest)" by simp
    then have na: "name_at W lit (c # cs) = Some n" by (simp add: name_at_match)
    from m obtain q1 q2 where q1: "is_quote q1" and q2: "is_quote q2"
      and w: "\<forall>c \<in> set n. is_word_char W c"
      and s: "c # cs = lit @ [q1] @ n @ [q2] @ rest"
      unfolding match_quoted_name_iff pattern_matches_def by blast
    define M where "M = lit @ [q1] @ n @ [q2]"
    have Mne: "M \<noteq> []" by (simp add: M_def)
    from s have "c # cs = M @ rest" by (simp add: M_def)
    with Mne have cs: "cs = tl M @ rest" by (cases M) auto
    have "\<exists>u. u \<noteq> [] \<and> lit @ [q1] @ n @ [q2] = u @ tl M"
    proof (intro exI conjI)
      show "[hd M] \<noteq> []" by simp
      show "lit @ [q1] @ n @ [q2] = [hd M] @ tl M" using Mne by (simp add: M_def)
    qed
    from names_everywhere_skip [OF "2.prems" q1 q2 w this, of rest]
    have "names_everywhere W lit cs = names_everywhere W lit rest" by (simp add: cs)
    moreover have "findall_quoted_name W lit rest = names_everywhere W lit rest"
      by (rule "2.IH"(2) [OF Some x [symmetric] "2.prems"])
    ultimately show ?thesis using m na by (simp add: names_everywhere_Cons)
  qed
qed

lemma no_module_named_alone:
  "str ''No module named '' \<noteq> []"
  "hd (str ''No module named '') \<notin> set (tl (str ''No module named ''))"
  "\<forall>c \<in> set (str ''No module named ''). \<not> is_quote c"
  "\<exists>c \<in> set (str ''No module named ''). \<not> is_word_char W c"
  by (simp_all add: str_def is_quote_def sq_def dq_def is_word_char_def ascii_word_def)

lemma cannot_import_name_alone:
  "str ''ImportError: cannot import name '' \<noteq> []"
  "hd (str ''ImportError: cannot import name '') \<notin>
     set (tl (str ''ImportError: cannot import name ''))"
  "\<forall>c \<in> set (str ''ImportError: cannot import name ''). \<not> is_quote c"
  "\<exists>c \<in> set (str ''ImportError: cannot import name ''). \<not> is_word_char W c"
  by (simp_all add: str_def is_quote_def sq_def dq_def is_word_char_def ascii_word_def)

lemma find_missing_modules_eq:
  "find_missing_modules W text =
     names_everywhere W (str ''No module named '') text @
     names_everywhere W (str ''ImportError: cannot import name '') text @
     (if contains QT_BINDINGS_SIGNATURE text then [str ''PyQt5''] else [])"
  unfolding find_missing_modules_def Let_def
  by (simp add: findall_names_everywhere [OF no_module_named_alone]
      findall_names_everywhere [OF cannot_import_name_alone])

text \<open>
  C8. The classifier returns, for the pattern "No module named" and then for the pattern
  "cannot import name", the identifier captured at every position of the text where the
  pattern matches, from left to right, a repeated identifier as often as it is matched,
  and then \<^verbatim>\<open>PyQt5\<close> exactly when the text contains the Qt-bindings signature. At a position
  the pattern captures \<open>name\<close> exactly when the text goes on there with the pattern's words,
  a quote, \<open>name\<close> made of one word character or more, and a quote; so every identifier
  returned stands in the text as it is, case included.
\<close>

theorem find_missing_modules_all_captures:
  "find_missing_modules W text =
     names_everywhere W (str ''No module named '') text @
     names_everywhere W (str ''ImportError: cannot import name '') text @
     (if \<exists>a b. text = a @ QT_BINDINGS_SIGNATURE @ b then [str ''PyQt5''] else []) \<and>
   (\<forall>lit s name. name_at W lit s = Some name \<longleftrightarrow> (\<exists>rest. pattern_matches W lit s name rest)) \<and>
   (\<forall>lit name. name \<in> set (names_everywhere W lit text) \<longrightarrow> captured_by W lit text name)"
  by (simp add: find_missing_modules_eq contains_iff name_at_iff names_everywhere_captured)

lemma classifier_example_names:
  "names_everywhere world_unrecognised (str ''No module named '') classifier_example =
     [str ''numpy'', cafe, str ''numpy'']"
  "names_everywhere world_unrecognised (str ''ImportError: cannot import name '')
     classifier_example = [str ''foo'']"
  "contains QT_BINDINGS_SIGNATURE classifier_example"
  "name_at world_unrecognised (str ''No module named '') (drop 11 classifier_example) =
     Some (str ''numpy'')"
  by code_simp+

theorem find_missing_modules_all_captures_witness:
  "find_missing_modules world_unrecognised classifier_example =
     [str ''numpy'', cafe, str ''numpy'', str ''foo'', str ''PyQt5''] \<and>
   (\<exists>rest. pattern_matches world_unrecognised (str ''No module named '')
      (drop 11 classifier_example) (str ''numpy'') rest) \<and>
   captured_by world_unrecognised (str ''No module named '') classifier_example cafe"
proof -
  note t = find_missing_modules_all_captures [of world_unrecognised classifier_example]
  have "\<exists>a b. classifier_example = a @ QT_BINDINGS_SIGNATURE @ b"
    using classifier_example_names(3) by (simp add: contains_iff)
  with t classifier_example_names(1,2)
  have a: "find_missing_modules world_unrecognised classifier_example =
     [str ''numpy'', cafe, str ''numpy'', str ''foo'', str ''PyQt5'']" by simp
  from t classifier_example_names(4)
  have b: "\<exists>rest. pattern_matches world_unrecognised (str ''No module named '')
      (drop 11 classifier_example) (str ''numpy'') rest" by blast
  have "cafe \<in> set (names_everywhere world_unrecognised (str ''No module named '')
      classifier_example)"
    by (simp add: classifier_example_names(1))
  with t have c: "captured_by world_unrecognised (str ''No module named '')
      classifier_example cafe" by blast
  from a b c show ?thesis by blast
qed

subsection \<open>The resolver's trace\<close>

lemma packages_of_append: "packages_of (xs @ ys) = packages_of xs @ packages_of ys"
  by (induction xs rule: packages_of.induct) auto

lemma packages_of_installs: "list_all is_install es \<Longrightarrow> length (packages_of es) = length es"
  by (induction es rule: packages_of.induct) auto

lemma installs_no_packages: "list_all is_install new \<Longrightarrow> packages_of new = [] \<Longrightarrow> new = []"
  using packages_of_installs [of new] by simp

lemma answers_of_world_append:
  "answers_of_world W tr (xs @ ys) \<longleftrightarrow>
     answers_of_world W tr xs \<and> answers_of_world W (tr @ xs) ys"
  by (induction W tr xs rule: answers_of_world.induct) auto

lemma is_local_module_raises: "is_local_module W v a m = Inl e \<Longrightarrow> e = OSError"
  by (auto simp: is_local_module_def Let_def split: option.splits bool.splits)

lemma install_single_dependency_trace:
  assumes "install_single_dependency W v p tr = (res, tr')"
  shows "\<exists>pip. tr' = tr @ [PipInstall pip p (pip_result W tr p)] \<and>
           (res = Inr () \<longleftrightarrow> pip_succeeded (PipInstall pip p (pip_result W tr p))) \<and>
           (res = Inr () \<or> res = Inl (SystemExit 1 InstallFailed) \<or> res = Inl OSError)"
  using assms
  by (auto simp: install_single_dependency_def Let_def split: proc_result.splits if_splits)

lemma install_modules_trace:
  "\<exists>new. snd (install_modules W v a ms tr) = tr @ new \<and> list_all is_install new \<and>
     prefix (packages_of new)
       (map (package_for W) [m \<leftarrow> ms. is_local_module W v a m = Inr False]) \<and>
     (fst (install_modules W v a ms tr) = Inr () \<longleftrightarrow>
        list_all pip_succeeded new \<and> checks_answer W v a ms) \<and>
     (fst (install_modules W v a ms tr) = Inr () \<longrightarrow>
        packages_of new = map (package_for W) [m \<leftarrow> ms. is_local_module W v a m = Inr False]) \<and>
     (fst (install_modules W v a ms tr) = Inr () \<or>
      fst (install_modules W v a ms tr) = Inl (SystemExit 1 InstallFailed) \<or>
      fst (install_modules W v a ms tr) = Inl OSError) \<and>
     list_all pip_succeeded (butlast new) \<and>
     answers_of_world W tr new"
proof (induction ms arbitrary: tr)
  case Nil
  show ?case by (simp add: checks_answer_def)
next
  case (Cons m ms)
  let ?full = "\<lambda>ms. map (package_for W) [m \<leftarrow> ms. is_local_module W v a m = Inr False]"
  show ?case
  proof (cases "is_local_module W v a m")
    case (Inl e)
    then have e: "e = OSError" by (rule is_local_module_raises)
    with Inl have eq: "install_modules W v a (m # ms) tr = (Inl OSError, tr)" by simp
    from Inl e have "\<not> checks_answer W v a (m # ms)" by (simp add: checks_answer_def)
    with eq show ?thesis by (intro exI [of _ "[]"]) simp
  next
    case (Inr local)
    show ?thesis
    proof (cases local)
      case True
      with Inr have eq: "install_modules W v a (m # ms) tr = install_modules W v a ms tr"
        by simp
      from Inr True have f: "?full (m # ms) = ?full ms" by simp
      from Inr True have c: "checks_answer W v a (m # ms) = checks_answer W v a ms"
        by (simp add: checks_answer_def)
      from Cons.IH [of tr] show ?thesis unfolding eq f c .
    next
      case False
      with Inr have loc: "is_local_module W v a m = Inr False" by simp
      then have f: "?full (m # ms) = package_for W m # ?full ms" by simp
      from loc have c: "checks_answer W v a (m # ms) = checks_answer W v a ms"
        by (simp add: checks_answer_def)
      obtain res tr' where s: "install_single_dependency W v (package_for W m) tr = (res, tr')"
        by (cases "install_single_dependency W v (package_for W m) tr")
      from install_single_dependency_trace [OF s] obtain pip where
        tr': "tr' = tr @ [PipInstall pip (package_for W m) (pip_result W tr (package_for W m))]"
        and ok: "res = Inr () \<longleftrightarrow>
          pip_succeeded (PipInstall pip (package_for W m) (pip_result W tr (package_for W m)))"
        and shape: "res = Inr () \<or> res = Inl (SystemExit 1 InstallFailed) \<or> res = Inl OSError"
        by blast
      define e where "e = PipInstall pip (package_for W m) (pip_result W tr (package_for W m))"
      have e_inst: "is_install e" and e_pkg: "packages_of [e] = [package_for W m]"
        and e_ans: "answers_of_world W tr [e]"
        by (simp_all add: e_def)
      show ?thesis
      proof (cases res)
        case (Inl x)
        with s loc have eq: "install_modules W v a (m # ms) tr = (Inl x, tr')"
          by (simp add: package_for_def)
        from Inl ok have bad: "\<not> pip_succeeded e" by (simp add: e_def)
        have "snd (install_modules W v a (m # ms) tr) = tr @ [e]"
          using eq tr' by (simp add: e_def)
        moreover have "list_all is_install [e]" using e_inst by simp
        moreover have "prefix (packages_of [e]) (?full (m # ms))"
          unfolding f e_pkg by simp
        moreover have "fst (install_modules W v a (m # ms) tr) = Inr () \<longleftrightarrow>
            list_all pip_succeeded [e] \<and> checks_answer W v a (m # ms)"
          using eq bad by simp
        moreover have "fst (install_modules W v a (m # ms) tr) = Inr () \<longrightarrow>
            packages_of [e] = ?full (m # ms)"
          using eq by simp
        moreover have "fst (install_modules W v a (m # ms) tr) = Inr () \<or>
            fst (install_modules W v a (m # ms) tr) = Inl (SystemExit 1 InstallFailed) \<or>
            fst (install_modules W v a (m # ms) tr) = Inl OSError"
          using eq shape Inl by simp
        moreover have "list_all pip_succeeded (butlast [e])" by simp
        ultimately show ?thesis using e_ans by blast
      next
        case (Inr u)
        with s loc have eq: "install_modules W v a (m # ms) tr = install_modules W v a ms tr'"
          by (simp add: package_for_def)
        from Inr ok have good: "pip_succeeded e" by (simp add: e_def)
        have tr'e: "tr' = tr @ [e]" using tr' by (simp add: e_def)
        from Cons.IH [of tr'] obtain new where
          n: "snd (install_modules W v a ms tr') = tr' @ new" "list_all is_install new"
             "prefix (packages_of new) (?full ms)"
             "fst (install_modules W v a ms tr') = Inr () \<longleftrightarrow>
                list_all pip_succeeded new \<and> checks_answer W v a ms"
             "fst (install_modules W v a ms tr') = Inr () \<longrightarrow> packages_of new = ?full ms"
             "fst (install_modules W v a ms tr') = Inr () \<or>
              fst (install_modules W v a ms tr') = Inl (SystemExit 1 InstallFailed) \<or>
              fst (install_modules W v a ms tr') = Inl OSError"
             "list_all pip_succeeded (butlast new)"
             "answers_of_world W tr' new"
          by blast
        have "snd (install_modules W v a (m # ms) tr) = tr @ (e # new)"
          using eq n(1) tr'e by simp
        moreover have "list_all is_install (e # new)" using e_inst n(2) by simp
        moreover have "prefix (packages_of (e # new)) (?full (m # ms))"
          unfolding f using n(3) by (simp add: e_def)
        moreover have "fst (install_modules W v a (m # ms) tr) = Inr () \<longleftrightarrow>
            list_all pip_succeeded (e # new) \<and> checks_answer W v a (m # ms)"
          unfolding eq c using n(4) good by simp
        moreover have "fst (install_modules W v a (m # ms) tr) = Inr () \<longrightarrow>
            packages_of (e # new) = ?full (m # ms)"
          unfolding eq f using n(5) by (simp add: e_def)
        moreover have "fst (install_modules W v a (m # ms) tr) = Inr () \<or>
            fst (install_modules W v a (m # ms) tr) = Inl (SystemExit 1 InstallFailed) \<or>
            fst (install_modules W v a (m # ms) tr) = Inl OSError"
          unfolding eq by (rule n(6))
        moreover have "list_all pip_succeeded (butlast (e # new))"
          using good n(7) by simp
        moreover have "answers_of_world W tr (e # new)"
          using n(8) tr'e by (simp add: e_def)
        ultimately show ?thesis by blast
      qed
    qed
  qed
qed

lemma split_modules_filter:
  "split_modules W ms p s =
     (p @ [m \<leftarrow> ms. lower W m \<notin> SECONDARY_MODULES],
      s @ [m \<leftarrow> ms. lower W m \<in> SECONDARY_MODULES])"
  by (induction ms arbitrary: p s) auto

lemma find_missing_modules_empty:
  "find_missing_modules W err = [] \<Longrightarrow> \<not> contains QT_BINDINGS_SIGNATURE err"
  by (auto simp: find_missing_modules_def Let_def split: if_splits)

lemma checks_answer_split:
  "checks_answer W v a ids \<longleftrightarrow>
     checks_answer W v a [m \<leftarrow> ids. lower W m \<notin> SECONDARY_MODULES] \<and>
     checks_answer W v a [m \<leftarrow> ids. lower W m \<in> SECONDARY_MODULES]"
  by (auto simp: checks_answer_def list_all_iff)

lemma resolve_modules_trace:
  "\<exists>new. snd (resolve_modules W v a err tr) = tr @ new \<and> list_all is_install new \<and>
     prefix (packages_of new)
       (primary_packages W v a (find_missing_modules W err) @
        secondary_packages W v a (find_missing_modules W err)) \<and>
     (fst (resolve_modules W v a err tr) = Inr True \<longleftrightarrow>
        find_missing_modules W err \<noteq> [] \<and> checks_answer W v a (find_missing_modules W err) \<and>
        list_all pip_succeeded new) \<and>
     (fst (resolve_modules W v a err tr) = Inr True \<longrightarrow>
        packages_of new =
          primary_packages W v a (find_missing_modules W err) @
          secondary_packages W v a (find_missing_modules W err)) \<and>
     (find_missing_modules W err = [] \<longrightarrow>
        new = [] \<and> fst (resolve_modules W v a err tr) = Inr False) \<and>
     (fst (resolve_modules W v a err tr) = Inr True \<or>
      fst (resolve_modules W v a err tr) = Inr False \<and> find_missing_modules W err = [] \<or>
      fst (resolve_modules W v a err tr) = Inl (SystemExit 1 InstallFailed) \<or>
      fst (resolve_modules W v a err tr) = Inl OSError) \<and>
     list_all pip_succeeded (butlast new) \<and>
     answers_of_world W tr new"
proof (cases "find_missing_modules W err = []")
  case True
  then show ?thesis
    by (simp add: resolve_modules_def find_missing_modules_empty)
next
  case False
  define ids where "ids = find_missing_modules W err"
  define P where "P = [m \<leftarrow> ids. lower W m \<notin> SECONDARY_MODULES]"
  define S where "S = [m \<leftarrow> ids. lower W m \<in> SECONDARY_MODULES]"
  have pp: "map (package_for W) [m \<leftarrow> P. is_local_module W v a m = Inr False] =
      primary_packages W v a ids"
    by (simp add: P_def primary_packages_def)
  have sp: "map (package_for W) [m \<leftarrow> S. is_local_module W v a m = Inr False] =
      secondary_packages W v a ids"
    by (simp add: S_def secondary_packages_def)
  have ck: "checks_answer W v a ids \<longleftrightarrow> checks_answer W v a P \<and> checks_answer W v a S"
    unfolding P_def S_def by (rule checks_answer_split)
  from install_modules_trace [of W v a P tr] obtain n1 where
    n1: "snd (install_modules W v a P tr) = tr @ n1" "list_all is_install n1"
        "prefix (packages_of n1) (primary_packages W v a ids)"
        "fst (install_modules W v a P tr) = Inr () \<longleftrightarrow>
           list_all pip_succeeded n1 \<and> checks_answer W v a P"
        "fst (install_modules W v a P tr) = Inr () \<longrightarrow> packages_of n1 = primary_packages W v a ids"
        "fst (install_modules W v a P tr) = Inr () \<or>
         fst (install_modules W v a P tr) = Inl (SystemExit 1 InstallFailed) \<or>
         fst (install_modules W v a P tr) = Inl OSError"
        "list_all pip_succeeded (butlast n1)"
        "answers_of_world W tr n1"
    unfolding pp by blast
  obtain r1 t1 where i1: "install_modules W v a P tr = (r1, t1)"
    by (cases "install_modules W v a P tr")
  have unfold: "resolve_modules W v a err tr =
     (case install_modules W v a P tr of
        (Inl e, tr') \<Rightarrow> (Inl e, tr')
      | (Inr u, tr') \<Rightarrow>
          (case install_modules W v a S tr' of
             (Inl e, tr'') \<Rightarrow> (Inl e, tr'')
           | (Inr u, tr'') \<Rightarrow> (Inr True, tr'')))"
    unfolding P_def S_def ids_def using False
    by (simp add: resolve_modules_def Let_def split_modules_filter)
  define X where "X = fst (resolve_modules W v a err tr)"
  have ne: "ids \<noteq> []" using False by (simp add: ids_def)
  show ?thesis
  proof (cases r1)
    case (Inl e)
    with unfold i1 have eq: "resolve_modules W v a err tr = (Inl e, t1)" by simp
    from n1(4) i1 Inl have bad: "\<not> (list_all pip_succeeded n1 \<and> checks_answer W v a P)" by simp
    from n1(6) i1 Inl have sh: "e = SystemExit 1 InstallFailed \<or> e = OSError" by simp
    have c1: "snd (resolve_modules W v a err tr) = tr @ n1" using eq n1(1) i1 by simp
    have c3: "prefix (packages_of n1) (primary_packages W v a ids @ secondary_packages W v a ids)"
      using n1(3) by (rule prefix_prefix)
    have c4: "X = Inr True \<longleftrightarrow> ids \<noteq> [] \<and> checks_answer W v a ids \<and> list_all pip_succeeded n1"
      using eq bad ck by (auto simp: X_def)
    have c5: "X = Inr True \<longrightarrow> packages_of n1 =
        primary_packages W v a ids @ secondary_packages W v a ids"
      using eq by (simp add: X_def)
    have c6: "ids = [] \<longrightarrow> n1 = [] \<and> X = Inr False" using ne by simp
    have c7: "X = Inr True \<or> X = Inr False \<and> ids = [] \<or>
        X = Inl (SystemExit 1 InstallFailed) \<or> X = Inl OSError"
      using eq sh by (auto simp: X_def)
    from c1 n1(2) c3 c4 c5 c6 c7 n1(7) n1(8) show ?thesis
      unfolding X_def ids_def by blast
  next
    case (Inr u)
    from install_modules_trace [of W v a S t1] obtain n2 where
      n2: "snd (install_modules W v a S t1) = t1 @ n2" "list_all is_install n2"
          "prefix (packages_of n2) (secondary_packages W v a ids)"
          "fst (install_modules W v a S t1) = Inr () \<longleftrightarrow>
             list_all pip_succeeded n2 \<and> checks_answer W v a S"
          "fst (install_modules W v a S t1) = Inr () \<longrightarrow> packages_of n2 = secondary_packages W v a ids"
          "fst (install_modules W v a S t1) = Inr () \<or>
           fst (install_modules W v a S t1) = Inl (SystemExit 1 InstallFailed) \<or>
           fst (install_modules W v a S t1) = Inl OSError"
          "list_all pip_succeeded (butlast n2)"
          "answers_of_world W t1 n2"
      unfolding sp by blast
    obtain r2 t2 where i2: "install_modules W v a S t1 = (r2, t2)"
      by (cases "install_modules W v a S t1")
    from n1 i1 Inr have p1: "packages_of n1 = primary_packages W v a ids"
      and ok1: "list_all pip_succeeded n1" and ck1: "checks_answer W v a P"
      and t1: "t1 = tr @ n1" by simp_all
    from n2(1) i2 t1 have t2: "t2 = tr @ n1 @ n2" by simp
    have eqX: "X = (case r2 of Inl e \<Rightarrow> Inl e | Inr u \<Rightarrow> Inr True)"
      and c1: "snd (resolve_modules W v a err tr) = tr @ (n1 @ n2)"
      using unfold i1 i2 Inr t2 by (auto simp: X_def split: sum.splits)
    have c2: "list_all is_install (n1 @ n2)" using n1(2) n2(2) by simp
    have c3: "prefix (packages_of (n1 @ n2))
        (primary_packages W v a ids @ secondary_packages W v a ids)"
      using p1 n2(3) by (simp add: packages_of_append)
    have c4: "X = Inr True \<longleftrightarrow>
        ids \<noteq> [] \<and> checks_answer W v a ids \<and> list_all pip_succeeded (n1 @ n2)"
      using eqX n2(4) i2 ok1 ck1 ck ne by (auto split: sum.splits)
    have c5: "X = Inr True \<longrightarrow> packages_of (n1 @ n2) =
        primary_packages W v a ids @ secondary_packages W v a ids"
      using eqX n2(5) i2 p1 by (auto simp: packages_of_append split: sum.splits)
    have c6: "ids = [] \<longrightarrow> n1 @ n2 = [] \<and> X = Inr False" using ne by simp
    have c7: "X = Inr True \<or> X = Inr False \<and> ids = [] \<or>
        X = Inl (SystemExit 1 InstallFailed) \<or> X = Inl OSError"
      using eqX n2(6) i2 by (auto split: sum.splits)
    have c8: "list_all pip_succeeded (butlast (n1 @ n2))"
      using ok1 n1(7) n2(7) by (simp add: butlast_append)
    have c9: "answers_of_world W tr (n1 @ n2)"
      using n1(8) n2(8) t1 by (simp add: answers_of_world_append)
    from c1 c2 c3 c4 c5 c6 c7 c8 c9 show ?thesis
      unfolding X_def ids_def by blast
  qed
qed

lemma handle_missing_dependencies_trace:
  "\<exists>new.
     snd (handle_missing_dependencies W v a args f tr) =
       tr @ ExecTarget
              ([path_str (os_nt W) (path_div (path_div v (scripts_dir W)) (str ''python'')),
                path_str (os_nt W) a] @ args)
              (environ W) True
              (target_result W tr
                 ([path_str (os_nt W) (path_div (path_div v (scripts_dir W)) (str ''python'')),
                   path_str (os_nt W) a] @ args) (environ W) True) # new"
proof -
  define argv where "argv =
    [path_str (os_nt W) (path_div (path_div v (scripts_dir W)) (str ''python'')),
     path_str (os_nt W) a] @ args"
  define r where "r = target_result W tr argv (environ W) True"
  define tr1 where "tr1 = tr @ [ExecTarget argv (environ W) True r]"
  have unfold: "handle_missing_dependencies W v a args f tr =
     (case r of
        LaunchFailed \<Rightarrow> (Inr False, tr1)
      | Exited returncode err \<Rightarrow>
          if returncode \<noteq> 0 then
            (case resolve_modules W v a err tr1 of
               (Inl (SystemExit code site), tr2) \<Rightarrow> (Inl (SystemExit code site), tr2)
             | (Inl OSError, tr2) \<Rightarrow> (Inr False, tr2)
             | (Inl ValueError, tr2) \<Rightarrow> (Inr False, tr2)
             | (Inl OverflowError, tr2) \<Rightarrow> (Inr False, tr2)
             | (Inr resolved, tr2) \<Rightarrow> (Inr resolved, tr2))
          else (Inr False, tr1))"
    unfolding argv_def r_def tr1_def handle_missing_dependencies_def Let_def by (rule refl)
  have res: "snd (case x of
               (Inl (SystemExit code site), tr2) \<Rightarrow> (Inl (SystemExit code site), tr2)
             | (Inl OSError, tr2) \<Rightarrow> (Inr False, tr2)
             | (Inl ValueError, tr2) \<Rightarrow> (Inr False, tr2)
             | (Inl OverflowError, tr2) \<Rightarrow> (Inr False :: py_exc + bool, tr2)
             | (Inr resolved, tr2) \<Rightarrow> (Inr resolved, tr2)) = snd x"
    for x :: "(py_exc + bool) \<times> event list"
    by (auto split: prod.splits sum.splits py_exc.splits)
  have "\<exists>new. snd (handle_missing_dependencies W v a args f tr) = tr1 @ new"
  proof (cases r)
    case LaunchFailed
    with unfold show ?thesis by simp
  next
    case (Exited rc err)
    show ?thesis
    proof (cases "rc = 0")
      case True
      with unfold Exited show ?thesis by simp
    next
      case False
      from resolve_modules_trace [of W v a err tr1] obtain new where
        "snd (resolve_modules W v a err tr1) = tr1 @ new" by blast
      with unfold Exited False res show ?thesis by simp
    qed
  qed
  then show ?thesis unfolding tr1_def r_def argv_def by simp
qed

lemma handle_missing_dependencies_facts:
  assumes s: "snd (handle_missing_dependencies W v a args f tr) =
      tr @ ExecTarget argv env piped r # new"
  shows "env = environ W" and "piped" and "list_all is_install new"
    and "prefix (packages_of new)
       (primary_packages W v a (identifiers_of W r) @ secondary_packages W v a (identifiers_of W r))"
    and "fst (handle_missing_dependencies W v a args f tr) = Inr True \<longleftrightarrow>
        identifiers_of W r \<noteq> [] \<and> checks_answer W v a (identifiers_of W r) \<and>
        list_all pip_succeeded new"
    and "fst (handle_missing_dependencies W v a args f tr) = Inr True \<Longrightarrow>
        packages_of new =
          primary_packages W v a (identifiers_of W r) @ secondary_packages W v a (identifiers_of W r)"
    and "identifiers_of W r = [] \<Longrightarrow>
        new = [] \<and> fst (handle_missing_dependencies W v a args f tr) = Inr False"
    and "fst (handle_missing_dependencies W v a args f tr) = Inr True \<or>
      fst (handle_missing_dependencies W v a args f tr) = Inr False \<or>
      fst (handle_missing_dependencies W v a args f tr) = Inl (SystemExit 1 InstallFailed)"
    and "list_all pip_succeeded (butlast new)"
    and "answers_of_world W (tr @ [ExecTarget argv env piped r]) new"
proof -
  define argv' where "argv' =
    [path_str (os_nt W) (path_div (path_div v (scripts_dir W)) (str ''python'')),
     path_str (os_nt W) a] @ args"
  define r' where "r' = target_result W tr argv' (environ W) True"
  define tr1 where "tr1 = tr @ [ExecTarget argv' (environ W) True r']"
  from handle_missing_dependencies_trace [of W v a args f tr] obtain new' where
    "snd (handle_missing_dependencies W v a args f tr) =
       tr @ ExecTarget argv' (environ W) True r' # new'"
    unfolding argv'_def r'_def by blast
  with s have e: "argv = argv'" "env = environ W" "piped" "r = r'" "new = new'" by simp_all
  then have s': "snd (handle_missing_dependencies W v a args f tr) = tr1 @ new"
    using s by (simp add: tr1_def)
  have unfold: "handle_missing_dependencies W v a args f tr =
     (case r of
        LaunchFailed \<Rightarrow> (Inr False, tr1)
      | Exited returncode err \<Rightarrow>
          if returncode \<noteq> 0 then
            (case resolve_modules W v a err tr1 of
               (Inl (SystemExit code site), tr2) \<Rightarrow> (Inl (SystemExit code site), tr2)
             | (Inl OSError, tr2) \<Rightarrow> (Inr False, tr2)
             | (Inl ValueError, tr2) \<Rightarrow> (Inr False, tr2)
             | (Inl OverflowError, tr2) \<Rightarrow> (Inr False, tr2)
             | (Inr resolved, tr2) \<Rightarrow> (Inr resolved, tr2))
          else (Inr False, tr1))"
    unfolding e(4) argv'_def r'_def tr1_def handle_missing_dependencies_def Let_def
    by (rule refl)
  define X where "X = fst (handle_missing_dependencies W v a args f tr)"
  define ids where "ids = identifiers_of W r"
  have all: "list_all is_install new \<and>
      prefix (packages_of new) (primary_packages W v a ids @ secondary_packages W v a ids) \<and>
      (X = Inr True \<longleftrightarrow> ids \<noteq> [] \<and> checks_answer W v a ids \<and> list_all pip_succeeded new) \<and>
      (X = Inr True \<longrightarrow>
         packages_of new = primary_packages W v a ids @ secondary_packages W v a ids) \<and>
      (ids = [] \<longrightarrow> new = [] \<and> X = Inr False) \<and>
      (X = Inr True \<or> X = Inr False \<or> X = Inl (SystemExit 1 InstallFailed)) \<and>
      list_all pip_succeeded (butlast new) \<and>
      answers_of_world W tr1 new"
  proof (cases "ids = []")
    case True
    have "handle_missing_dependencies W v a args f tr = (Inr False, tr1)"
    proof (cases r)
      case LaunchFailed
      with unfold show ?thesis by simp
    next
      case (Exited rc err)
      show ?thesis
      proof (cases "rc = 0")
        case True
        with unfold Exited show ?thesis by simp
      next
        case False
        with True Exited have "find_missing_modules W err = []"
          by (simp add: ids_def identifiers_of_def)
        with resolve_modules_trace [of W v a err tr1]
        have "resolve_modules W v a err tr1 = (Inr False, tr1)"
          by (auto simp: prod_eq_iff)
        with unfold Exited False show ?thesis by simp
      qed
    qed
    with s' have "new = []" and "X = Inr False" by (simp_all add: X_def)
    with True show ?thesis
      by (simp add: primary_packages_def secondary_packages_def checks_answer_def)
  next
    case False
    then obtain rc err where r: "r = Exited rc err" and rc: "rc \<noteq> 0"
      and ids: "ids = find_missing_modules W err"
      by (cases r) (auto simp: ids_def identifiers_of_def split: if_splits)
    obtain res t2 where rm: "resolve_modules W v a err tr1 = (res, t2)"
      by (cases "resolve_modules W v a err tr1")
    from resolve_modules_trace [of W v a err tr1] obtain new'' where
      m: "snd (resolve_modules W v a err tr1) = tr1 @ new''" "list_all is_install new''"
         "prefix (packages_of new'') (primary_packages W v a ids @ secondary_packages W v a ids)"
         "fst (resolve_modules W v a err tr1) = Inr True \<longleftrightarrow>
            ids \<noteq> [] \<and> checks_answer W v a ids \<and> list_all pip_succeeded new''"
         "fst (resolve_modules W v a err tr1) = Inr True \<longrightarrow> packages_of new'' =
            primary_packages W v a ids @ secondary_packages W v a ids"
         "fst (resolve_modules W v a err tr1) = Inr True \<or>
          fst (resolve_modules W v a err tr1) = Inr False \<and> ids = [] \<or>
          fst (resolve_modules W v a err tr1) = Inl (SystemExit 1 InstallFailed) \<or>
          fst (resolve_modules W v a err tr1) = Inl OSError"
         "list_all pip_succeeded (butlast new'')"
         "answers_of_world W tr1 new''"
      unfolding ids by blast
    from m(6) False rm have sh: "res = Inr True \<or> res = Inl (SystemExit 1 InstallFailed) \<or>
        res = Inl OSError" by simp
    then have X: "X = (if res = Inl OSError then Inr False else res)"
      and st: "snd (handle_missing_dependencies W v a args f tr) = t2"
      using unfold r rc rm unfolding X_def by auto
    from st s' m(1) rm have nn: "new = new''" by simp
    have c4: "X = Inr True \<longleftrightarrow> ids \<noteq> [] \<and> checks_answer W v a ids \<and> list_all pip_succeeded new"
      using m(4) rm X nn by auto
    have c5: "X = Inr True \<longrightarrow>
        packages_of new = primary_packages W v a ids @ secondary_packages W v a ids"
      using m(5) rm X nn by auto
    have c7: "X = Inr True \<or> X = Inr False \<or> X = Inl (SystemExit 1 InstallFailed)"
      using sh X by auto
    from m(2) m(3) c4 c5 False c7 m(7) m(8) nn show ?thesis by blast
  qed
  show "env = environ W" by (rule e(2))
  show "piped" by (rule e(3))
  show "list_all is_install new" using all by blast
  show "prefix (packages_of new)
       (primary_packages W v a (identifiers_of W r) @ secondary_packages W v a (identifiers_of W r))"
    using all unfolding ids_def by blast
  show "fst (handle_missing_dependencies W v a args f tr) = Inr True \<longleftrightarrow>
        identifiers_of W r \<noteq> [] \<and> checks_answer W v a (identifiers_of W r) \<and>
        list_all pip_succeeded new"
    using all unfolding ids_def X_def by blast
  show "fst (handle_missing_dependencies W v a args f tr) = Inr True \<Longrightarrow>
        packages_of new =
          primary_packages W v a (identifiers_of W r) @ secondary_packages W v a (identifiers_of W r)"
    using all unfolding ids_def X_def by blast
  show "identifiers_of W r = [] \<Longrightarrow>
        new = [] \<and> fst (handle_missing_dependencies W v a args f tr) = Inr False"
    using all unfolding ids_def X_def by blast
  show "fst (handle_missing_dependencies W v a args f tr) = Inr True \<or>
      fst (handle_missing_dependencies W v a args f tr) = Inr False \<or>
      fst (handle_missing_dependencies W v a args f tr) = Inl (SystemExit 1 InstallFailed)"
    using all unfolding X_def by blast
  show "list_all pip_succeeded (butlast new)" using all by blast
  show "answers_of_world W (tr @ [ExecTarget argv env piped r]) new"
    using all e unfolding tr1_def by simp
qed

lemma lower_Pillow: "lower W (str ''Pillow'') \<notin> SECONDARY_MODULES"
  by (simp add: lower_def str_def ascii_lower_def SECONDARY_MODULES_def)

lemma primary_package_not_secondary:
  "lower W m \<notin> SECONDARY_MODULES \<Longrightarrow> lower W (package_for W m) \<notin> SECONDARY_MODULES"
  using lower_Pillow [of W]
  by (auto simp: package_for_def dict_get_def MODULE_PACKAGE_MAP_def SECONDARY_MODULES_def)

lemma primary_packages_not_secondary:
  "list_all (\<lambda>p. lower W p \<notin> SECONDARY_MODULES) (primary_packages W v a ids)"
  by (auto simp: primary_packages_def list_all_iff primary_package_not_secondary)

lemma no_nonlocal_no_packages:
  "list_all (\<lambda>m. is_local_module W v a m \<noteq> Inr False) ids \<Longrightarrow>
     primary_packages W v a ids = [] \<and> secondary_packages W v a ids = []"
  by (auto simp: primary_packages_def secondary_packages_def list_all_iff filter_empty_conv)

lemma packages_subset_nonlocal:
  "set (primary_packages W v a ids @ secondary_packages W v a ids) \<subseteq>
     package_for W ` {m \<in> set ids. is_local_module W v a m = Inr False}"
  by (auto simp: primary_packages_def secondary_packages_def)

lemma existing_file_is_local:
  "path_exists W (path_div (parent a) (m @ str ''.py'')) = Some True \<or>
   path_exists W (path_div (path_div (parent a) m) (str ''__init__.py'')) = Some True \<Longrightarrow>
     is_local_module W v a m \<noteq> Inr False"
  by (auto simp: is_local_module_def Let_def split: option.splits bool.splits)

subsection \<open>Evaluations in the concrete worlds\<close>

lemma mixed_resolution:
  "handle_missing_dependencies world_mixed venv0 app0 [] False [] =
     (Inr True,
      [] @ ExecTarget argv0 [] True (Exited 1 mixed_message) #
        [PipInstall pip0 (str ''Pillow'') (Exited 0 []),
         PipInstall pip0 (str ''requests'') (Exited 0 []),
         PipInstall pip0 (str ''qtawesome'') (Exited 0 [])])"
  by code_simp

lemma mixed_identifiers:
  "identifiers_of world_mixed (Exited 1 mixed_message) =
     [str ''qtawesome'', str ''helper'', str ''PIL'', str ''requests'']"
  by code_simp

lemma mixed_packages:
  "primary_packages world_mixed venv0 app0 (identifiers_of world_mixed (Exited 1 mixed_message)) =
     [str ''Pillow'', str ''requests'']"
  "secondary_packages world_mixed venv0 app0 (identifiers_of world_mixed (Exited 1 mixed_message)) =
     [str ''qtawesome'']"
  "checks_answer world_mixed venv0 app0 (identifiers_of world_mixed (Exited 1 mixed_message))"
  by code_simp+

lemma local_only_resolution:
  "handle_missing_dependencies world_local_only venv0 app0 [] False [] =
     (Inr True, [] @ ExecTarget argv0 [] True (Exited 1 (no_module_named (str ''helper''))) # [])"
  by code_simp

lemma local_only_identifiers:
  "identifiers_of world_local_only (Exited 1 (no_module_named (str ''helper''))) = [str ''helper'']"
  by code_simp



lemma qtawesome_resolution:
  "handle_missing_dependencies world_qtawesome venv0 app0 [] False [] =
     (Inr True,
      [] @ ExecTarget argv0 [] True (Exited 1 (no_module_named (str ''qtawesome''))) #
        [PipInstall pip0 (str ''qtawesome'') (Exited 0 [])])"
  by code_simp

lemma qtawesome_packages:
  "primary_packages world_qtawesome venv0 app0
     (identifiers_of world_qtawesome (Exited 1 (no_module_named (str ''qtawesome'')))) = []"
  "secondary_packages world_qtawesome venv0 app0
     (identifiers_of world_qtawesome (Exited 1 (no_module_named (str ''qtawesome'')))) =
     [str ''qtawesome'']"
  "checks_answer world_qtawesome venv0 app0
     (identifiers_of world_qtawesome (Exited 1 (no_module_named (str ''qtawesome''))))"
  by code_simp+



lemma helper_is_local: "is_local_module world_mixed venv0 app0 (str ''helper'') = Inr True"
  and helper_is_local': "is_local_module world_local_only venv0 app0 (str ''helper'') = Inr True"
  by code_simp+

subsection \<open>The resolver's result\<close>




subsection \<open>Installation order\<close>

text \<open>
  C6. The packages installed in a resolution are an initial part of the list "packages of
  the primary identifiers, then packages of the secondary identifiers", each part in the
  order of extraction: no secondary package is installed before every primary one. Every
  installation but the last one attempted has succeeded, and each carries the outcome the
  world gives. The whole list is installed when no check for a local module raises and no
  installation fails, and whenever the resolver answers true; so the secondary packages
  are installed also when there is no primary one. No package of a primary identifier is
  on the denylist.
\<close>

theorem secondary_after_primary:
  "(\<exists>argv r new. snd (handle_missing_dependencies W v a args f tr) =
       tr @ ExecTarget argv (environ W) True r # new) \<and>
   (\<forall>argv env piped r new.
      snd (handle_missing_dependencies W v a args f tr) = tr @ ExecTarget argv env piped r # new \<longrightarrow>
        list_all is_install new \<and>
        prefix (packages_of new)
          (primary_packages W v a (identifiers_of W r) @
           secondary_packages W v a (identifiers_of W r)) \<and>
        list_all pip_succeeded (butlast new) \<and>
        answers_of_world W (tr @ [ExecTarget argv env piped r]) new \<and>
        (checks_answer W v a (identifiers_of W r) \<and> list_all pip_succeeded new \<longrightarrow>
           packages_of new =
             primary_packages W v a (identifiers_of W r) @
             secondary_packages W v a (identifiers_of W r)) \<and>
        (fst (handle_missing_dependencies W v a args f tr) = Inr True \<longrightarrow>
           packages_of new =
             primary_packages W v a (identifiers_of W r) @
             secondary_packages W v a (identifiers_of W r)) \<and>
        list_all (\<lambda>p. lower W p \<notin> SECONDARY_MODULES)
          (primary_packages W v a (identifiers_of W r)))"
proof (intro conjI allI impI)
  show "\<exists>argv r new. snd (handle_missing_dependencies W v a args f tr) =
       tr @ ExecTarget argv (environ W) True r # new"
    using handle_missing_dependencies_trace [of W v a args f tr] by blast
next
  fix argv env piped r new
  assume s: "snd (handle_missing_dependencies W v a args f tr) = tr @ ExecTarget argv env piped r # new"
  note d = handle_missing_dependencies_facts [OF s]
  show "list_all is_install new" by (rule d(3))
  show "prefix (packages_of new)
          (primary_packages W v a (identifiers_of W r) @
           secondary_packages W v a (identifiers_of W r))"
    by (rule d(4))
  show "list_all pip_succeeded (butlast new)" by (rule d(9))
  show "answers_of_world W (tr @ [ExecTarget argv env piped r]) new" by (rule d(10))
  show "list_all (\<lambda>p. lower W p \<notin> SECONDARY_MODULES)
          (primary_packages W v a (identifiers_of W r))"
    by (rule primary_packages_not_secondary)
  {
    assume "fst (handle_missing_dependencies W v a args f tr) = Inr True"
    then show "packages_of new =
             primary_packages W v a (identifiers_of W r) @
             secondary_packages W v a (identifiers_of W r)"
      by (rule d(6))
  }
  {
    assume h: "checks_answer W v a (identifiers_of W r) \<and> list_all pip_succeeded new"
    show "packages_of new =
             primary_packages W v a (identifiers_of W r) @
             secondary_packages W v a (identifiers_of W r)"
    proof (cases "identifiers_of W r = []")
      case True
      with d(7) show ?thesis
        by (simp add: primary_packages_def secondary_packages_def)
    next
      case False
      with h d(5) have "fst (handle_missing_dependencies W v a args f tr) = Inr True" by simp
      then show ?thesis by (rule d(6))
    qed
  }
qed

theorem secondary_after_primary_witness:
  "snd (handle_missing_dependencies world_qtawesome venv0 app0 [] False []) =
     [ExecTarget argv0 [] True (Exited 1 (no_module_named (str ''qtawesome''))),
      PipInstall pip0 (str ''qtawesome'') (Exited 0 [])] \<and>
   packages_of [PipInstall pip0 (str ''qtawesome'') (Exited 0 [])] =
     primary_packages world_qtawesome venv0 app0
       (identifiers_of world_qtawesome (Exited 1 (no_module_named (str ''qtawesome'')))) @
     secondary_packages world_qtawesome venv0 app0
       (identifiers_of world_qtawesome (Exited 1 (no_module_named (str ''qtawesome'')))) \<and>
   primary_packages world_qtawesome venv0 app0
     (identifiers_of world_qtawesome (Exited 1 (no_module_named (str ''qtawesome'')))) = [] \<and>
   snd (handle_missing_dependencies world_mixed venv0 app0 [] False []) =
     [ExecTarget argv0 [] True (Exited 1 mixed_message),
      PipInstall pip0 (str ''Pillow'') (Exited 0 []),
      PipInstall pip0 (str ''requests'') (Exited 0 []),
      PipInstall pip0 (str ''qtawesome'') (Exited 0 [])] \<and>
   packages_of
     [PipInstall pip0 (str ''Pillow'') (Exited 0 []),
      PipInstall pip0 (str ''requests'') (Exited 0 []),
      PipInstall pip0 (str ''qtawesome'') (Exited 0 [])] =
     primary_packages world_mixed venv0 app0 (identifiers_of world_mixed (Exited 1 mixed_message)) @
     secondary_packages world_mixed venv0 app0 (identifiers_of world_mixed (Exited 1 mixed_message)) \<and>
   secondary_packages world_mixed venv0 app0 (identifiers_of world_mixed (Exited 1 mixed_message)) =
     [str ''qtawesome'']"
proof -
  note t = secondary_after_primary [THEN conjunct2, rule_format]
  have s2: "snd (handle_missing_dependencies world_qtawesome venv0 app0 [] False []) =
      [] @ ExecTarget argv0 [] True (Exited 1 (no_module_named (str ''qtawesome''))) #
        [PipInstall pip0 (str ''qtawesome'') (Exited 0 [])]"
    by (simp add: qtawesome_resolution)
  have a: "packages_of [PipInstall pip0 (str ''qtawesome'') (Exited 0 [])] =
     primary_packages world_qtawesome venv0 app0
       (identifiers_of world_qtawesome (Exited 1 (no_module_named (str ''qtawesome'')))) @
     secondary_packages world_qtawesome venv0 app0
       (identifiers_of world_qtawesome (Exited 1 (no_module_named (str ''qtawesome''))))"
    using t [OF s2, THEN conjunct2, THEN conjunct2, THEN conjunct2, THEN conjunct2, THEN conjunct1]
      qtawesome_packages(3) by simp
  have s1: "snd (handle_missing_dependencies world_mixed venv0 app0 [] False []) =
      [] @ ExecTarget argv0 [] True (Exited 1 mixed_message) #
        [PipInstall pip0 (str ''Pillow'') (Exited 0 []),
         PipInstall pip0 (str ''requests'') (Exited 0 []),
         PipInstall pip0 (str ''qtawesome'') (Exited 0 [])]"
    by (simp add: mixed_resolution)
  have b: "packages_of
     [PipInstall pip0 (str ''Pillow'') (Exited 0 []),
      PipInstall pip0 (str ''requests'') (Exited 0 []),
      PipInstall pip0 (str ''qtawesome'') (Exited 0 [])] =
     primary_packages world_mixed venv0 app0 (identifiers_of world_mixed (Exited 1 mixed_message)) @
     secondary_packages world_mixed venv0 app0 (identifiers_of world_mixed (Exited 1 mixed_message))"
    using t [OF s1, THEN conjunct2, THEN conjunct2, THEN conjunct2, THEN conjunct2, THEN conjunct1]
      mixed_packages(3) by simp
  from a b s1 s2 qtawesome_packages(1) mixed_packages(2) show ?thesis by simp
qed

subsection \<open>The loop's trace\<close>

lemma run_app_in_venv_trace:
  "\<exists>argv env r. run_app_in_venv W v a args tr =
     ((\<exists>err. r = Exited 0 err), tr @ [ExecTarget argv env False r])"
proof -
  define env where "env = AList.update (str ''PYTHONPATH'')
      (if dict_get (environ W) (str ''PYTHONPATH'') [] \<noteq> []
       then path_str (os_nt W) (parent a) @ pathsep W @ dict_get (environ W) (str ''PYTHONPATH'') []
       else path_str (os_nt W) (parent a)) (environ W)"
  define argv where "argv =
    [path_str (os_nt W) (path_div (path_div v (scripts_dir W)) (str ''python'')),
     path_str (os_nt W) a] @ args"
  define r where "r = target_result W tr argv env False"
  have "run_app_in_venv W v a args tr =
     (case r of
        Exited returncode err \<Rightarrow>
          if returncode = 0 then (True, tr @ [ExecTarget argv env False r])
          else (False, tr @ [ExecTarget argv env False r])
      | LaunchFailed \<Rightarrow> (False, tr @ [ExecTarget argv env False r]))"
    unfolding r_def argv_def env_def run_app_in_venv_def Let_def by (rule refl)
  then have "run_app_in_venv W v a args tr =
     ((\<exists>err. r = Exited 0 err), tr @ [ExecTarget argv env False r])"
    by (cases r) auto
  then show ?thesis by blast
qed

lemma installs_no_exec:
  "list_all is_install new \<Longrightarrow>
     filter is_primary_exec new = [] \<and> filter is_diagnostic_exec new = [] \<and> filter is_exec new = []"
  by (induction new rule: packages_of.induct) auto

lemma executions_split: "executions tr = primary_executions tr + diagnostic_executions tr"
  unfolding executions_def primary_executions_def diagnostic_executions_def
  by (induction tr rule: packages_of.induct) auto

lemma run_app_in_venv_counts:
  "primary_executions (snd (run_app_in_venv W v a args tr)) = primary_executions tr + 1 \<and>
   diagnostic_executions (snd (run_app_in_venv W v a args tr)) = diagnostic_executions tr"
  using run_app_in_venv_trace [of W v a args tr]
  by (auto simp: primary_executions_def diagnostic_executions_def)

lemma handle_missing_dependencies_shape:
  "\<exists>argv r new. snd (handle_missing_dependencies W v a args f tr) =
       tr @ ExecTarget argv (environ W) True r # new \<and> list_all is_install new \<and>
     prefix (packages_of new)
       (primary_packages W v a (identifiers_of W r) @ secondary_packages W v a (identifiers_of W r))"
proof -
  from handle_missing_dependencies_trace [of W v a args f tr] obtain argv r new where
    s: "snd (handle_missing_dependencies W v a args f tr) =
          tr @ ExecTarget argv (environ W) True r # new" by blast
  from handle_missing_dependencies_facts(3,4) [OF s] s show ?thesis by blast
qed

lemma handle_missing_dependencies_counts:
  "primary_executions (snd (handle_missing_dependencies W v a args f tr)) = primary_executions tr \<and>
   diagnostic_executions (snd (handle_missing_dependencies W v a args f tr)) =
     diagnostic_executions tr + 1"
proof -
  from handle_missing_dependencies_shape [of W v a args f tr] obtain argv r new where
    s: "snd (handle_missing_dependencies W v a args f tr) = tr @ ExecTarget argv (environ W) True r # new"
    and i: "list_all is_install new" by blast
  from installs_no_exec [OF i] s show ?thesis
    by (simp add: primary_executions_def diagnostic_executions_def)
qed

lemma run_loop_unfold:
  assumes "run_app_in_venv W v a args tr = (success, tr1)"
    and "handle_missing_dependencies W v a args f tr1 = (res, tr2)"
  shows "run_loop W v a args f d mx k tr =
     (if k \<le> mx then
        if success then (Inr (), tr1)
        else if k < mx then
          (case res of
             Inl e \<Rightarrow> (Inl e, tr2)
           | Inr resolved \<Rightarrow>
               if resolved then
                 if d < 0 then (Inl ValueError, tr2)
                 else if sleep_max W < d then (Inl OverflowError, tr2)
                 else run_loop W v a args f d mx (k + 1) (tr2 @ [Sleep d])
               else (Inl (SystemExit 1 ResolveFailed), tr2))
        else run_loop W v a args f d mx (k + 1) tr1
      else (Inl (SystemExit 1 AttemptsExhausted), tr))"
  by (subst run_loop.simps) (simp add: assms)

lemma run_loop_step:
  assumes ra: "run_app_in_venv W v a args tr = (success, tr1)"
    and hm: "handle_missing_dependencies W v a args f tr1 = (res, tr2)"
    and exhausted: "\<not> k \<le> mx \<Longrightarrow> Q tr"
    and succeeded: "k \<le> mx \<Longrightarrow> success \<Longrightarrow> Q tr1"
    and stopped: "k < mx \<Longrightarrow> \<not> success \<Longrightarrow> Q tr2"
    and last_attempt: "\<not> success \<Longrightarrow> k = mx \<Longrightarrow>
        Q (snd (run_loop W v a args f d mx (k + 1) tr1))"
    and again: "\<not> success \<Longrightarrow> k < mx \<Longrightarrow> res = Inr True \<Longrightarrow> \<not> d < 0 \<Longrightarrow>
        \<not> sleep_max W < d \<Longrightarrow>
        Q (snd (run_loop W v a args f d mx (k + 1) (tr2 @ [Sleep d])))"
  shows "Q (snd (run_loop W v a args f d mx k tr))"
proof -
  note u = run_loop_unfold [OF ra hm, of d mx k]
  show ?thesis
  proof (cases "k \<le> mx")
    case False
    with u exhausted show ?thesis by simp
  next
    case le: True
    show ?thesis
    proof (cases success)
      case True
      with u le succeeded show ?thesis by simp
    next
      case nsucc: False
      show ?thesis
      proof (cases "k < mx")
        case False
        with le have "k = mx" by simp
        from last_attempt [OF nsucc this] u le nsucc False show ?thesis by simp
      next
        case lt: True
        note st = stopped [OF lt nsucc]
        show ?thesis
        proof (cases res)
          case (Inl e)
          with u le nsucc lt st show ?thesis by simp
        next
          case (Inr resolved)
          show ?thesis
          proof (cases "resolved \<and> \<not> d < 0 \<and> \<not> sleep_max W < d")
            case False
            with u le nsucc lt Inr st show ?thesis by auto
          next
            case True
            with again [OF nsucc lt] Inr
            have "Q (snd (run_loop W v a args f d mx (k + 1) (tr2 @ [Sleep d])))" by simp
            with u le nsucc lt Inr True show ?thesis by simp
          qed
        qed
      qed
    qed
  qed
qed

lemma run_loop_counts:
  "primary_executions (snd (run_loop W v a args f d mx k tr)) \<le> primary_executions tr + (mx + 1 - k) \<and>
   diagnostic_executions (snd (run_loop W v a args f d mx k tr)) \<le> diagnostic_executions tr + (mx - k)"
proof (induction W v a args f d mx k tr rule: run_loop.induct)
  case (1 W v a args f d mx k tr)
  obtain success tr1 where ra: "run_app_in_venv W v a args tr = (success, tr1)"
    by (cases "run_app_in_venv W v a args tr")
  obtain res tr2 where hm: "handle_missing_dependencies W v a args f tr1 = (res, tr2)"
    by (cases "handle_missing_dependencies W v a args f tr1")
  from run_app_in_venv_counts [of W v a args tr] ra
  have c1: "primary_executions tr1 = primary_executions tr + 1"
    "diagnostic_executions tr1 = diagnostic_executions tr" by simp_all
  from handle_missing_dependencies_counts [of W v a args f tr1] hm
  have c2: "primary_executions tr2 = primary_executions tr1"
    "diagnostic_executions tr2 = diagnostic_executions tr1 + 1" by simp_all
  have c3: "primary_executions (tr2 @ [Sleep d]) = primary_executions tr2"
    "diagnostic_executions (tr2 @ [Sleep d]) = diagnostic_executions tr2"
    by (simp_all add: primary_executions_def diagnostic_executions_def)
  let ?Q = "\<lambda>t. primary_executions t \<le> primary_executions tr + (mx + 1 - k) \<and>
     diagnostic_executions t \<le> diagnostic_executions tr + (mx - k)"
  show ?case
  proof (rule run_loop_step [OF ra hm, where Q = ?Q])
    show "?Q tr" by simp
    show "?Q tr1" if "k \<le> mx" using that c1 by (simp; arith)
    show "?Q tr2" if "k < mx" using that c1 c2 by (simp; arith)
    show "?Q (snd (run_loop W v a args f d mx (k + 1) tr1))" if "\<not> success" "k = mx"
    proof -
      from "1.IH"(2) [OF _ refl ra [symmetric]] that
      have "primary_executions (snd (run_loop W v a args f d mx (k + 1) tr1))
              \<le> primary_executions tr1 + (mx + 1 - (k + 1)) \<and>
            diagnostic_executions (snd (run_loop W v a args f d mx (k + 1) tr1))
              \<le> diagnostic_executions tr1 + (mx - (k + 1))" by simp
      with that c1 show ?thesis by (simp; arith)
    qed
    show "?Q (snd (run_loop W v a args f d mx (k + 1) (tr2 @ [Sleep d])))"
      if "\<not> success" "k < mx" "res = Inr True" "\<not> d < 0" "\<not> sleep_max W < d"
    proof -
      from "1.IH"(1) [OF _ refl ra [symmetric] that(1,2) refl hm [symmetric] that(3) _ that(4,5)]
        that(2)
      have "primary_executions (snd (run_loop W v a args f d mx (k + 1) (tr2 @ [Sleep d])))
              \<le> primary_executions (tr2 @ [Sleep d]) + (mx + 1 - (k + 1)) \<and>
            diagnostic_executions (snd (run_loop W v a args f d mx (k + 1) (tr2 @ [Sleep d])))
              \<le> diagnostic_executions (tr2 @ [Sleep d]) + (mx - (k + 1))" by simp
      with that(2) c1 c2 c3 show ?thesis by (simp; arith)
    qed
  qed
qed

lemma run_loop_packages:
  "set (packages_of (snd (run_loop W v a args f d mx k tr))) \<subseteq>
     set (packages_of tr) \<union> package_for W ` {m. is_local_module W v a m = Inr False}"
proof (induction W v a args f d mx k tr rule: run_loop.induct)
  case (1 W v a args f d mx k tr)
  let ?L = "package_for W ` {m. is_local_module W v a m = Inr False}"
  obtain success tr1 where ra: "run_app_in_venv W v a args tr = (success, tr1)"
    by (cases "run_app_in_venv W v a args tr")
  obtain res tr2 where hm: "handle_missing_dependencies W v a args f tr1 = (res, tr2)"
    by (cases "handle_missing_dependencies W v a args f tr1")
  from run_app_in_venv_trace [of W v a args tr] ra
  have p1: "packages_of tr1 = packages_of tr" by (auto simp: packages_of_append)
  from handle_missing_dependencies_shape [of W v a args f tr1] hm obtain argv r new where
    s: "tr2 = tr1 @ ExecTarget argv (environ W) True r # new"
    and pre: "prefix (packages_of new)
       (primary_packages W v a (identifiers_of W r) @ secondary_packages W v a (identifiers_of W r))"
    by auto
  from pre have "set (packages_of new) \<subseteq>
      set (primary_packages W v a (identifiers_of W r) @
           secondary_packages W v a (identifiers_of W r))"
    by (rule set_mono_prefix)
  also have "\<dots> \<subseteq> package_for W ` {m \<in> set (identifiers_of W r). is_local_module W v a m = Inr False}"
    by (rule packages_subset_nonlocal)
  also have "\<dots> \<subseteq> ?L" by blast
  finally have "set (packages_of new) \<subseteq> ?L" .
  with s p1 have p2: "set (packages_of tr2) \<subseteq> set (packages_of tr) \<union> ?L"
    by (auto simp: packages_of_append)
  have p3: "packages_of (tr2 @ [Sleep d]) = packages_of tr2" by (simp add: packages_of_append)
  let ?Q = "\<lambda>t. set (packages_of t) \<subseteq> set (packages_of tr) \<union> ?L"
  show ?case
  proof (rule run_loop_step [OF ra hm, where Q = ?Q])
    show "?Q tr" by simp
    show "?Q tr1" using p1 by simp
    show "?Q tr2" by (rule p2)
    show "?Q (snd (run_loop W v a args f d mx (k + 1) tr1))" if "\<not> success" "k = mx"
    proof -
      from "1.IH"(2) [OF _ refl ra [symmetric]] that
      have "set (packages_of (snd (run_loop W v a args f d mx (k + 1) tr1))) \<subseteq>
              set (packages_of tr1) \<union> ?L" by simp
      with p1 show ?thesis by simp
    qed
    show "?Q (snd (run_loop W v a args f d mx (k + 1) (tr2 @ [Sleep d])))"
      if "\<not> success" "k < mx" "res = Inr True" "\<not> d < 0" "\<not> sleep_max W < d"
    proof -
      from "1.IH"(1) [OF _ refl ra [symmetric] that(1,2) refl hm [symmetric] that(3) _ that(4,5)]
        that(2)
      have "set (packages_of (snd (run_loop W v a args f d mx (k + 1) (tr2 @ [Sleep d])))) \<subseteq>
              set (packages_of (tr2 @ [Sleep d])) \<union> ?L" by simp
      with p2 p3 show ?thesis by auto
    qed
  qed
qed

lemma run_loop_extends: "\<exists>ext. snd (run_loop W v a args f d mx k tr) = tr @ ext"
proof (induction W v a args f d mx k tr rule: run_loop.induct)
  case (1 W v a args f d mx k tr)
  obtain success tr1 where ra: "run_app_in_venv W v a args tr = (success, tr1)"
    by (cases "run_app_in_venv W v a args tr")
  obtain res tr2 where hm: "handle_missing_dependencies W v a args f tr1 = (res, tr2)"
    by (cases "handle_missing_dependencies W v a args f tr1")
  from run_app_in_venv_trace [of W v a args tr] ra
  obtain e1 where p1: "tr1 = tr @ e1" by auto
  from handle_missing_dependencies_shape [of W v a args f tr1] hm
  obtain e2 where p2: "tr2 = tr1 @ e2" by auto
  let ?Q = "\<lambda>t. \<exists>ext. t = tr @ ext"
  show ?case
  proof (rule run_loop_step [OF ra hm, where Q = ?Q])
    show "?Q tr" by simp
    show "?Q tr1" using p1 by simp
    show "?Q tr2" using p1 p2 by simp
    show "?Q (snd (run_loop W v a args f d mx (k + 1) tr1))" if "\<not> success" "k = mx"
    proof -
      from "1.IH"(2) [OF _ refl ra [symmetric]] that
      obtain ext where "snd (run_loop W v a args f d mx (k + 1) tr1) = tr1 @ ext" by auto
      with p1 show ?thesis by simp
    qed
    show "?Q (snd (run_loop W v a args f d mx (k + 1) (tr2 @ [Sleep d])))"
      if "\<not> success" "k < mx" "res = Inr True" "\<not> d < 0" "\<not> sleep_max W < d"
    proof -
      from "1.IH"(1) [OF _ refl ra [symmetric] that(1,2) refl hm [symmetric] that(3) _ that(4,5)]
        that(2)
      obtain ext where "snd (run_loop W v a args f d mx (k + 1) (tr2 @ [Sleep d])) =
          (tr2 @ [Sleep d]) @ ext" by auto
      with p1 p2 show ?thesis by simp
    qed
  qed
qed

lemma run_loop_force_install:
  "run_loop W v a args f d mx k tr = run_loop W v a args f' d mx k tr"
proof (induction W v a args f d mx k tr rule: run_loop.induct)
  case (1 W v a args f d mx k tr)
  obtain success tr1 where ra: "run_app_in_venv W v a args tr = (success, tr1)"
    by (cases "run_app_in_venv W v a args tr")
  obtain res tr2 where hm: "handle_missing_dependencies W v a args f tr1 = (res, tr2)"
    by (cases "handle_missing_dependencies W v a args f tr1")
  then have hm': "handle_missing_dependencies W v a args f' tr1 = (res, tr2)"
    by (simp add: handle_missing_dependencies_def)
  note u = run_loop_unfold [OF ra hm, of d mx k]
  note u' = run_loop_unfold [OF ra hm', of d mx k]
  show ?case
  proof (cases "k \<le> mx \<and> \<not> success")
    case False
    with u u' show ?thesis by auto
  next
    case T: True
    show ?thesis
    proof (cases "k < mx")
      case False
      from "1.IH"(2) [OF _ refl ra [symmetric]] T False
      have "run_loop W v a args f d mx (k + 1) tr1 = run_loop W v a args f' d mx (k + 1) tr1"
        by simp
      with u u' T False show ?thesis by simp
    next
      case lt: True
      show ?thesis
      proof (cases res)
        case (Inl e)
        with u u' T lt show ?thesis by simp
      next
        case (Inr resolved)
        show ?thesis
        proof (cases "resolved \<and> \<not> d < 0 \<and> \<not> sleep_max W < d")
          case False
          with u u' T lt Inr show ?thesis by auto
        next
          case True
          from "1.IH"(1) [OF _ refl ra [symmetric] _ lt refl hm [symmetric] Inr] T True
          have "run_loop W v a args f d mx (k + 1) (tr2 @ [Sleep d]) =
                run_loop W v a args f' d mx (k + 1) (tr2 @ [Sleep d])" by simp
          with u u' T lt Inr True show ?thesis by simp
        qed
      qed
    qed
  qed
qed

lemma path_str_nonempty: "path_str nt p \<noteq> []"
  by (simp add: path_str_def str_def)

lemma pythonpath_changed:
  "map_of (AList.update k
      (if dict_get E k [] \<noteq> [] then dir @ sep @ dict_get E k [] else dir) E) k \<noteq> map_of E k"
  if "dir \<noteq> []"
proof (cases "map_of E k")
  case None
  then show ?thesis by (simp add: update_conv')
next
  case (Some x)
  then have g: "dict_get E k [] = x" by (simp add: dict_get_def)
  show ?thesis
  proof (cases "x = []")
    case True
    with Some g that show ?thesis by (auto simp: update_conv')
  next
    case False
    have "length (dir @ sep @ x) \<noteq> length x" using that by simp
    then have "dir @ sep @ x \<noteq> x" by fastforce
    with Some g False show ?thesis by (simp add: update_conv')
  qed
qed

lemma run_app_in_venv_event:
  "\<exists>env r. run_app_in_venv W v a args tr =
     ((\<exists>err. r = Exited 0 err),
      tr @ [ExecTarget
              ([path_str (os_nt W) (path_div (path_div v (scripts_dir W)) (str ''python'')),
                path_str (os_nt W) a] @ args) env False r])"
proof -
  define env where "env = AList.update (str ''PYTHONPATH'')
      (if dict_get (environ W) (str ''PYTHONPATH'') [] \<noteq> []
       then path_str (os_nt W) (parent a) @ pathsep W @ dict_get (environ W) (str ''PYTHONPATH'') []
       else path_str (os_nt W) (parent a)) (environ W)"
  define argv where "argv =
    [path_str (os_nt W) (path_div (path_div v (scripts_dir W)) (str ''python'')),
     path_str (os_nt W) a] @ args"
  define r where "r = target_result W tr argv env False"
  have "run_app_in_venv W v a args tr =
     (case r of
        Exited returncode err \<Rightarrow>
          if returncode = 0 then (True, tr @ [ExecTarget argv env False r])
          else (False, tr @ [ExecTarget argv env False r])
      | LaunchFailed \<Rightarrow> (False, tr @ [ExecTarget argv env False r]))"
    unfolding r_def argv_def env_def run_app_in_venv_def Let_def by (rule refl)
  then have "run_app_in_venv W v a args tr =
     ((\<exists>err. r = Exited 0 err), tr @ [ExecTarget argv env False r])"
    by (cases r) auto
  then show ?thesis unfolding argv_def by blast
qed

lemma run_loop_failed_attempt:
  assumes "k < mx"
    and ra: "run_app_in_venv W v a args tr = (False, tr1)"
    and hm: "handle_missing_dependencies W v a args f tr1 = (res, tr2)"
  shows "\<exists>ext. snd (run_loop W v a args f d mx k tr) = tr2 @ ext"
proof -
  note u = run_loop_unfold [OF ra hm, of d mx k]
  show ?thesis
  proof (cases "res = Inr True \<and> \<not> d < 0 \<and> \<not> sleep_max W < d")
    case True
    from run_loop_extends [of W v a args f d mx "k + 1" "tr2 @ [Sleep d]"]
    obtain ext where "snd (run_loop W v a args f d mx (k + 1) (tr2 @ [Sleep d])) =
        (tr2 @ [Sleep d]) @ ext" by blast
    with u True assms(1) show ?thesis by simp
  next
    case False
    with u assms(1) have "snd (run_loop W v a args f d mx k tr) = tr2"
      by (cases res) auto
    then show ?thesis by simp
  qed
qed

subsection \<open>Runs in the concrete worlds\<close>

lemma recurring_run:
  "executions (snd (run_application world_recurring venv0 app0 [] False 2 [])) = 23"
  "primary_executions (snd (run_application world_recurring venv0 app0 [] False 2 [])) = 12"
  "fst (run_application world_recurring venv0 app0 [] False 2 []) = Inl (SystemExit 1 AttemptsExhausted)"
proof -
  have "case run_application world_recurring venv0 app0 [] False 2 [] of
          (res, tr) \<Rightarrow> executions tr = 23 \<and> primary_executions tr = 12 \<and>
            res = Inl (SystemExit 1 AttemptsExhausted)"
    by code_simp
  then show
    "executions (snd (run_application world_recurring venv0 app0 [] False 2 [])) = 23"
    "primary_executions (snd (run_application world_recurring venv0 app0 [] False 2 [])) = 12"
    "fst (run_application world_recurring venv0 app0 [] False 2 []) = Inl (SystemExit 1 AttemptsExhausted)"
    by (simp_all add: case_prod_beta)
qed

lemma unrecognised_run:
  "run_application world_unrecognised venv0 app0 [] False 2 [] =
     (Inl (SystemExit 1 ResolveFailed),
      [ExecTarget argv0 env0 False (Exited 1 (str ''boom'')),
       ExecTarget argv0 [] True (Exited 1 (str ''boom''))])"
  by code_simp

lemma pip_fails_run:
  "fst (run_application world_pip_fails venv0 app0 [] False 2 []) = Inl (SystemExit 1 InstallFailed)"
  by code_simp

lemma launcher_exit_status_zero: "launcher_exit_status W v a args f d tr = 0"
  by (simp add: launcher_exit_status_def main_launch_def thread_start_join_def
      process_exit_status_def)

lemma unrecognised_primary:
  "run_app_in_venv world_unrecognised venv0 app0 [] [] =
     (False, [ExecTarget argv0 env0 False (Exited 1 (str ''boom''))])"
  by code_simp

lemma unrecognised_diagnostic:
  "snd (handle_missing_dependencies world_unrecognised venv0 app0 [] False
          [ExecTarget argv0 env0 False (Exited 1 (str ''boom''))]) =
     [ExecTarget argv0 env0 False (Exited 1 (str ''boom''))] @
     ExecTarget argv0 [] True (Exited 1 (str ''boom'')) # []"
  by code_simp

lemma boom_unrecognised: "find_missing_modules world_unrecognised (str ''boom'') = []"
  by code_simp

lemma launch_once_primary:
  "snd (run_app_in_venv world_launch_once venv0 app0 [] []) =
     [] @ [ExecTarget argv0 env0 False LaunchFailed]"
  "run_app_in_venv world_launch_once venv0 app0 [] [] =
     (False, [ExecTarget argv0 env0 False LaunchFailed])"
  by code_simp+

lemma launch_once_diagnostic:
  "handle_missing_dependencies world_launch_once venv0 app0 [] False
     [ExecTarget argv0 env0 False LaunchFailed] =
     (Inr True,
      [ExecTarget argv0 env0 False LaunchFailed,
       ExecTarget argv0 [] True (Exited 1 (no_module_named (str ''requests''))),
       PipInstall pip0 (str ''requests'') (Exited 0 [])])"
  by code_simp

lemma launch_once_run:
  "run_application world_launch_once venv0 app0 [] False 2 [] =
     (Inr (),
      [ExecTarget argv0 env0 False LaunchFailed,
       ExecTarget argv0 [] True (Exited 1 (no_module_named (str ''requests''))),
       PipInstall pip0 (str ''requests'') (Exited 0 []),
       Sleep 2,
       ExecTarget argv0 env0 False (Exited 0 [])])"
  by code_simp

lemma launch_once_limits:
  "(1::nat) < 12 \<and> (0::int) \<le> 2 \<and> 2 \<le> sleep_max world_launch_once"
  by code_simp

lemma no_launch_primary:
  "snd (run_app_in_venv world_no_launch venv0 app0 [] []) =
     [] @ [ExecTarget argv0 env0 False LaunchFailed]"
  "run_app_in_venv world_no_launch venv0 app0 [] [] =
     (False, [ExecTarget argv0 env0 False LaunchFailed])"
  by code_simp+

lemma no_launch_diagnostic:
  "snd (handle_missing_dependencies world_no_launch venv0 app0 [] False
     [ExecTarget argv0 env0 False LaunchFailed]) =
     [ExecTarget argv0 env0 False LaunchFailed] @
     ExecTarget argv0 [] True LaunchFailed # []"
  by code_simp

lemma package_for_helper: "package_for W m = str ''helper'' \<Longrightarrow> m = str ''helper''"
  by (auto simp: package_for_def dict_get_def MODULE_PACKAGE_MAP_def str_def split: if_splits)

lemma helper_exists:
  "path_exists world_mixed (path_div (parent app0) (str ''helper'' @ str ''.py'')) = Some True"
  by code_simp

subsection \<open>Local modules\<close>

text \<open>
  C5. An identifier is local when \<^verbatim>\<open>is_local_module\<close> does not answer false for it; this
  is so whenever the file \<^verbatim>\<open>m.py\<close> or the file \<^verbatim>\<open>m/__init__.py\<close> exists beside the
  target. In a resolution nothing but installations follows the diagnostic execution, and
  every package installed is the package of an identifier of that execution for which
  \<^verbatim>\<open>is_local_module\<close> answered false; when no identifier is of this kind nothing is
  installed. Over a whole run, every package installed is the package of some identifier for
  which \<^verbatim>\<open>is_local_module\<close> answers false.
\<close>

theorem local_modules_never_installed:
  "(\<exists>argv r new. snd (handle_missing_dependencies W v a args f tr) =
       tr @ ExecTarget argv (environ W) True r # new) \<and>
   (\<forall>argv env piped r new.
      snd (handle_missing_dependencies W v a args f tr) = tr @ ExecTarget argv env piped r # new \<longrightarrow>
        list_all is_install new \<and>
        set (packages_of new) \<subseteq>
          package_for W ` {m \<in> set (identifiers_of W r). is_local_module W v a m = Inr False} \<and>
        (list_all (\<lambda>m. is_local_module W v a m \<noteq> Inr False) (identifiers_of W r) \<longrightarrow> new = [])) \<and>
   set (packages_of (snd (run_application W v a args f d tr))) \<subseteq>
     set (packages_of tr) \<union> package_for W ` {m. is_local_module W v a m = Inr False} \<and>
   (\<forall>m. path_exists W (path_div (parent a) (m @ str ''.py'')) = Some True \<or>
        path_exists W (path_div (path_div (parent a) m) (str ''__init__.py'')) = Some True \<longrightarrow>
        is_local_module W v a m \<noteq> Inr False)"
proof (intro conjI allI impI)
  show "\<exists>argv r new. snd (handle_missing_dependencies W v a args f tr) =
       tr @ ExecTarget argv (environ W) True r # new"
    using handle_missing_dependencies_trace [of W v a args f tr] by blast
next
  show "set (packages_of (snd (run_application W v a args f d tr))) \<subseteq>
     set (packages_of tr) \<union> package_for W ` {m. is_local_module W v a m = Inr False}"
    unfolding run_application_def by (rule run_loop_packages)
next
  fix m
  assume "path_exists W (path_div (parent a) (m @ str ''.py'')) = Some True \<or>
        path_exists W (path_div (path_div (parent a) m) (str ''__init__.py'')) = Some True"
  then show "is_local_module W v a m \<noteq> Inr False" by (rule existing_file_is_local)
next
  fix argv env piped r new
  assume s: "snd (handle_missing_dependencies W v a args f tr) = tr @ ExecTarget argv env piped r # new"
  note d = handle_missing_dependencies_facts(3,4) [OF s]
  show "list_all is_install new" by (rule d(1))
  from d(2) have "set (packages_of new) \<subseteq>
      set (primary_packages W v a (identifiers_of W r) @ secondary_packages W v a (identifiers_of W r))"
    by (rule set_mono_prefix)
  with packages_subset_nonlocal [of W v a "identifiers_of W r"]
  show "set (packages_of new) \<subseteq>
          package_for W ` {m \<in> set (identifiers_of W r). is_local_module W v a m = Inr False}"
    by (rule subset_trans [rotated])
  {
    assume "list_all (\<lambda>m. is_local_module W v a m \<noteq> Inr False) (identifiers_of W r)"
    with no_nonlocal_no_packages [of W v a "identifiers_of W r"] d(2)
    have "packages_of new = []" by simp
    with d(1) show "new = []" by (rule installs_no_packages)
  }
qed

theorem local_modules_never_installed_witness:
  "set (packages_of
     [PipInstall pip0 (str ''Pillow'') (Exited 0 []), PipInstall pip0 (str ''requests'') (Exited 0 []),
      PipInstall pip0 (str ''qtawesome'') (Exited 0 [])]) \<subseteq>
     package_for world_mixed ` {m \<in> set (identifiers_of world_mixed (Exited 1 mixed_message)).
                     is_local_module world_mixed venv0 app0 m = Inr False} \<and>
   path_exists world_mixed (path_div (parent app0) (str ''helper'' @ str ''.py'')) = Some True \<and>
   is_local_module world_mixed venv0 app0 (str ''helper'') \<noteq> Inr False \<and>
   str ''helper'' \<in> set (identifiers_of world_mixed (Exited 1 mixed_message)) \<and>
   snd (handle_missing_dependencies world_mixed venv0 app0 [] False []) =
      [ExecTarget argv0 [] True (Exited 1 mixed_message),
       PipInstall pip0 (str ''Pillow'') (Exited 0 []), PipInstall pip0 (str ''requests'') (Exited 0 []),
       PipInstall pip0 (str ''qtawesome'') (Exited 0 [])] \<and>
   str ''helper'' \<notin> set (packages_of (snd (run_application world_mixed venv0 app0 [] False 2 []))) \<and>
   snd (handle_missing_dependencies world_local_only venv0 app0 [] False []) =
      [ExecTarget argv0 [] True (Exited 1 (no_module_named (str ''helper'')))]"
proof -
  note t = local_modules_never_installed [of world_mixed venv0 app0 "[]" False "[]" 2]
  note t' = local_modules_never_installed [of world_local_only venv0 app0 "[]" False "[]" 2]
  have s1: "snd (handle_missing_dependencies world_mixed venv0 app0 [] False []) =
      [] @ ExecTarget argv0 [] True (Exited 1 mixed_message) #
        [PipInstall pip0 (str ''Pillow'') (Exited 0 []), PipInstall pip0 (str ''requests'') (Exited 0 []),
         PipInstall pip0 (str ''qtawesome'') (Exited 0 [])]"
    by (simp add: mixed_resolution)
  have a: "set (packages_of
     [PipInstall pip0 (str ''Pillow'') (Exited 0 []), PipInstall pip0 (str ''requests'') (Exited 0 []),
      PipInstall pip0 (str ''qtawesome'') (Exited 0 [])]) \<subseteq>
     package_for world_mixed ` {m \<in> set (identifiers_of world_mixed (Exited 1 mixed_message)).
                     is_local_module world_mixed venv0 app0 m = Inr False}"
    using t s1 by blast
  have b: "str ''helper'' \<in> set (identifiers_of world_mixed (Exited 1 mixed_message))"
    by (simp add: mixed_identifiers)
  from t helper_exists
  have l: "is_local_module world_mixed venv0 app0 (str ''helper'') \<noteq> Inr False" by blast
  from t have "set (packages_of (snd (run_application world_mixed venv0 app0 [] False 2 []))) \<subseteq>
      set (packages_of []) \<union>
      package_for world_mixed ` {m. is_local_module world_mixed venv0 app0 m = Inr False}"
    by blast
  moreover have "str ''helper'' \<notin>
      package_for world_mixed ` {m. is_local_module world_mixed venv0 app0 m = Inr False}"
    using l by (auto dest!: sym [of "str ''helper''"] package_for_helper)
  ultimately have c: "str ''helper'' \<notin>
      set (packages_of (snd (run_application world_mixed venv0 app0 [] False 2 [])))"
    by auto
  obtain argv r new where s2: "snd (handle_missing_dependencies world_local_only venv0 app0 [] False []) =
      [] @ ExecTarget argv (environ world_local_only) True r # new"
    using t' by blast
  with local_only_resolution have e: "argv = argv0" "r = Exited 1 (no_module_named (str ''helper''))"
    by simp_all
  have "list_all (\<lambda>m. is_local_module world_local_only venv0 app0 m \<noteq> Inr False)
          (identifiers_of world_local_only r)"
    unfolding e by (simp add: local_only_identifiers helper_is_local')
  with t' s2 have "new = []" by blast
  with s2 e have d: "snd (handle_missing_dependencies world_local_only venv0 app0 [] False []) =
      [ExecTarget argv0 [] True (Exited 1 (no_module_named (str ''helper'')))]"
    using local_only_resolution by simp
  from a b c l s1 d helper_exists show ?thesis by simp
qed

subsection \<open>The bound on executions\<close>

text \<open>
  C1, as the claim states it: counting every execution of the target in the environment, a
  run executes it at most 12 times. In \<open>world_recurring\<close> the target fails every time with
  the same missing module: it is executed 12 times by \<^verbatim>\<open>run_app_in_venv\<close> and 11 times more
  by \<^verbatim>\<open>handle_missing_dependencies\<close>, which runs it again to capture its error output.
\<close>

theorem total_executions_counterexample:
  "executions (snd (run_application world_recurring venv0 app0 [] False 2 [])) = 23 \<and>
   \<not> executions (snd (run_application world_recurring venv0 app0 [] False 2 [])) \<le> 12"
  by (simp add: recurring_run)

text \<open>
  C1, amended. In every run \<^verbatim>\<open>run_app_in_venv\<close> executes the target at most 12 times, the
  resolver executes it at most 11 times more (once after each failed attempt but the last),
  so the target is executed at most 23 times in all, whatever is missing.
\<close>

theorem executions_bounded:
  "primary_executions (snd (run_application W v a args f d tr)) \<le> primary_executions tr + 12 \<and>
   diagnostic_executions (snd (run_application W v a args f d tr)) \<le> diagnostic_executions tr + 11 \<and>
   executions (snd (run_application W v a args f d tr)) \<le> executions tr + 23"
  using run_loop_counts [of W v a args f d 12 1 tr]
  by (simp add: run_application_def executions_split)

subsection \<open>The exit status\<close>

text \<open>
  C2. The loop ends with \<^verbatim>\<open>sys.exit(1)\<close> when no dependency can be resolved, when the
  attempts are exhausted and when an installation fails; but \<^verbatim>\<open>main\<close> runs the loop as the
  target of a thread, the exception ends that thread only, \<^verbatim>\<open>main\<close> returns and the
  process exits with status 0 in all three cases.
\<close>

theorem launcher_exit_status_after_failure:
  "fst (run_application world_unrecognised venv0 app0 [] False 2 []) = Inl (SystemExit 1 ResolveFailed) \<and>
   launcher_exit_status world_unrecognised venv0 app0 [] False 2 [] = 0 \<and>
   fst (run_application world_recurring venv0 app0 [] False 2 []) = Inl (SystemExit 1 AttemptsExhausted) \<and>
   launcher_exit_status world_recurring venv0 app0 [] False 2 [] = 0 \<and>
   fst (run_application world_pip_fails venv0 app0 [] False 2 []) = Inl (SystemExit 1 InstallFailed) \<and>
   launcher_exit_status world_pip_fails venv0 app0 [] False 2 [] = 0"
  by (simp add: unrecognised_run recurring_run pip_fails_run launcher_exit_status_zero)

subsection \<open>A failure to start the target\<close>

text \<open>
  C4, as the claim states it: a failure to start the target ends the run without retry. In
  \<open>world_launch_once\<close> the first launch fails to start; the run goes on, \<^verbatim>\<open>run_app_in_venv\<close>
  launches the target a second time and the run ends in success.
\<close>

theorem launch_failure_counterexample:
  "fst (run_application world_launch_once venv0 app0 [] False 2 []) = Inr () \<and>
   primary_executions (snd (run_application world_launch_once venv0 app0 [] False 2 [])) = 2"
  by (simp add: launch_once_run primary_executions_def)

text \<open>
  C4, amended. \<^verbatim>\<open>run_app_in_venv\<close> returns true exactly when the target exits 0: a failure
  to start it and a non-zero exit both give false. When the launch of an attempt that is not
  the last fails to start, the run goes on: the resolver launches the same command line
  again, with the environment of the launcher. When the resolver answers true and
  \<^verbatim>\<open>time.sleep\<close> accepts the delay (it is not negative and not beyond the largest delay of
  the platform), the loop sleeps and goes on to the next attempt. When the resolver's launch
  fails to start too, the resolver installs nothing and the loop ends with \<^verbatim>\<open>sys.exit(1)\<close>
  at the place where dependencies could not be resolved.
\<close>

theorem launch_failure_is_failed_attempt:
  "(\<forall>argv env piped r.
      snd (run_app_in_venv W v a args tr) = tr @ [ExecTarget argv env piped r] \<longrightarrow>
        (fst (run_app_in_venv W v a args tr) \<longleftrightarrow> (\<exists>err. r = Exited 0 err))) \<and>
   (\<forall>argv env piped.
      attempt < max_attempts \<and>
      snd (run_app_in_venv W v a args tr) = tr @ [ExecTarget argv env piped LaunchFailed] \<longrightarrow>
        (\<exists>r rest. snd (run_loop W v a args f d max_attempts attempt tr) =
           tr @ ExecTarget argv env piped LaunchFailed # ExecTarget argv (environ W) True r # rest)) \<and>
   (\<forall>tr1 tr2.
      attempt < max_attempts \<and> 0 \<le> d \<and> d \<le> sleep_max W \<and>
      run_app_in_venv W v a args tr = (False, tr1) \<and>
      handle_missing_dependencies W v a args f tr1 = (Inr True, tr2) \<longrightarrow>
        run_loop W v a args f d max_attempts attempt tr =
        run_loop W v a args f d max_attempts (attempt + 1) (tr2 @ [Sleep d])) \<and>
   (\<forall>tr1 argv env piped new.
      attempt < max_attempts \<and> run_app_in_venv W v a args tr = (False, tr1) \<and>
      snd (handle_missing_dependencies W v a args f tr1) =
        tr1 @ ExecTarget argv env piped LaunchFailed # new \<longrightarrow>
        run_loop W v a args f d max_attempts attempt tr =
        (Inl (SystemExit 1 ResolveFailed), tr1 @ [ExecTarget argv env piped LaunchFailed]))"
proof (intro conjI allI impI)
  fix argv env piped r
  assume s: "snd (run_app_in_venv W v a args tr) = tr @ [ExecTarget argv env piped r]"
  from run_app_in_venv_trace [of W v a args tr] obtain argv' env' r' where
    e: "run_app_in_venv W v a args tr =
          ((\<exists>err. r' = Exited 0 err), tr @ [ExecTarget argv' env' False r'])" by blast
  with s have "r = r'" by simp
  with e show "fst (run_app_in_venv W v a args tr) \<longleftrightarrow> (\<exists>err. r = Exited 0 err)" by simp
next
  fix argv env piped
  assume h: "attempt < max_attempts \<and>
      snd (run_app_in_venv W v a args tr) = tr @ [ExecTarget argv env piped LaunchFailed]"
  define argv' where "argv' =
    [path_str (os_nt W) (path_div (path_div v (scripts_dir W)) (str ''python'')),
     path_str (os_nt W) a] @ args"
  from run_app_in_venv_event [of W v a args tr] obtain env' r' where
    e: "run_app_in_venv W v a args tr =
          ((\<exists>err. r' = Exited 0 err), tr @ [ExecTarget argv' env' False r'])"
    unfolding argv'_def by blast
  with h have q: "argv = argv'" "r' = LaunchFailed" by simp_all
  define tr1 where "tr1 = tr @ [ExecTarget argv env piped LaunchFailed]"
  from e h q have ra: "run_app_in_venv W v a args tr = (False, tr1)"
    by (simp add: tr1_def prod_eq_iff)
  obtain res tr2 where hm: "handle_missing_dependencies W v a args f tr1 = (res, tr2)"
    by (cases "handle_missing_dependencies W v a args f tr1")
  from handle_missing_dependencies_trace [of W v a args f tr1] hm obtain new where
    s2: "tr2 = tr1 @ ExecTarget argv' (environ W) True
                 (target_result W tr1 argv' (environ W) True) # new"
    unfolding argv'_def by auto
  from h have lt: "attempt < max_attempts" by simp
  from run_loop_failed_attempt [OF lt ra hm, of d] obtain ext where
    "snd (run_loop W v a args f d max_attempts attempt tr) = tr2 @ ext" by blast
  with s2 q have "snd (run_loop W v a args f d max_attempts attempt tr) =
      tr @ ExecTarget argv env piped LaunchFailed #
        ExecTarget argv (environ W) True (target_result W tr1 argv' (environ W) True) # (new @ ext)"
    by (simp add: tr1_def)
  then show "\<exists>r rest. snd (run_loop W v a args f d max_attempts attempt tr) =
           tr @ ExecTarget argv env piped LaunchFailed # ExecTarget argv (environ W) True r # rest"
    by blast
next
  fix tr1 tr2
  assume h: "attempt < max_attempts \<and> 0 \<le> d \<and> d \<le> sleep_max W \<and>
      run_app_in_venv W v a args tr = (False, tr1) \<and>
      handle_missing_dependencies W v a args f tr1 = (Inr True, tr2)"
  then have ra: "run_app_in_venv W v a args tr = (False, tr1)"
    and hm: "handle_missing_dependencies W v a args f tr1 = (Inr True, tr2)" by simp_all
  from run_loop_unfold [OF ra hm, of d max_attempts attempt] h
  show "run_loop W v a args f d max_attempts attempt tr =
        run_loop W v a args f d max_attempts (attempt + 1) (tr2 @ [Sleep d])" by simp
next
  fix tr1 argv env piped new
  assume h: "attempt < max_attempts \<and> run_app_in_venv W v a args tr = (False, tr1) \<and>
      snd (handle_missing_dependencies W v a args f tr1) =
        tr1 @ ExecTarget argv env piped LaunchFailed # new"
  then have ra: "run_app_in_venv W v a args tr = (False, tr1)"
    and s: "snd (handle_missing_dependencies W v a args f tr1) =
        tr1 @ ExecTarget argv env piped LaunchFailed # new" by simp_all
  have "identifiers_of W LaunchFailed = []" by (simp add: identifiers_of_def)
  from handle_missing_dependencies_facts(7) [OF s this]
  have "new = []" and "fst (handle_missing_dependencies W v a args f tr1) = Inr False" by simp_all
  with s have "handle_missing_dependencies W v a args f tr1 =
      (Inr False, tr1 @ [ExecTarget argv env piped LaunchFailed])"
    by (simp add: prod_eq_iff)
  from run_loop_unfold [OF ra this, of d max_attempts attempt] h
  show "run_loop W v a args f d max_attempts attempt tr =
        (Inl (SystemExit 1 ResolveFailed), tr1 @ [ExecTarget argv env piped LaunchFailed])" by simp
qed

theorem launch_failure_is_failed_attempt_witness:
  "\<not> fst (run_app_in_venv world_no_launch venv0 app0 [] []) \<and>
   (\<exists>r rest. snd (run_loop world_launch_once venv0 app0 [] False 2 12 1 []) =
      [] @ ExecTarget argv0 env0 False LaunchFailed #
        ExecTarget argv0 (environ world_launch_once) True r # rest) \<and>
   run_loop world_launch_once venv0 app0 [] False 2 12 1 [] =
   run_loop world_launch_once venv0 app0 [] False 2 12 (1 + 1)
     ([ExecTarget argv0 env0 False LaunchFailed,
       ExecTarget argv0 [] True (Exited 1 (no_module_named (str ''requests''))),
       PipInstall pip0 (str ''requests'') (Exited 0 [])] @ [Sleep 2]) \<and>
   run_loop world_no_launch venv0 app0 [] False 2 12 1 [] =
     (Inl (SystemExit 1 ResolveFailed),
      [ExecTarget argv0 env0 False LaunchFailed] @
      [ExecTarget argv0 [] True LaunchFailed])"
proof -
  note t1 = launch_failure_is_failed_attempt [THEN conjunct1, rule_format]
  note t2 = launch_failure_is_failed_attempt [THEN conjunct2, THEN conjunct1, rule_format]
  note t3 = launch_failure_is_failed_attempt
    [THEN conjunct2, THEN conjunct2, THEN conjunct1, rule_format]
  note t4 = launch_failure_is_failed_attempt
    [THEN conjunct2, THEN conjunct2, THEN conjunct2, rule_format]
  have a: "\<not> fst (run_app_in_venv world_no_launch venv0 app0 [] [])"
    using t1 [OF no_launch_primary(1)] by simp
  have b: "\<exists>r rest. snd (run_loop world_launch_once venv0 app0 [] False 2 12 1 []) =
      [] @ ExecTarget argv0 env0 False LaunchFailed #
        ExecTarget argv0 (environ world_launch_once) True r # rest"
    by (rule t2) (simp add: launch_once_primary(1))
  have c: "run_loop world_launch_once venv0 app0 [] False 2 12 1 [] =
   run_loop world_launch_once venv0 app0 [] False 2 12 (1 + 1)
     ([ExecTarget argv0 env0 False LaunchFailed,
       ExecTarget argv0 [] True (Exited 1 (no_module_named (str ''requests''))),
       PipInstall pip0 (str ''requests'') (Exited 0 [])] @ [Sleep 2])"
    by (rule t3 [where ?tr1.0 = "[ExecTarget argv0 env0 False LaunchFailed]"])
       (simp add: launch_once_primary(2) launch_once_diagnostic launch_once_limits)
  have d: "run_loop world_no_launch venv0 app0 [] False 2 12 1 [] =
     (Inl (SystemExit 1 ResolveFailed),
      [ExecTarget argv0 env0 False LaunchFailed] @
      [ExecTarget argv0 [] True LaunchFailed])"
    by (rule t4 [where new = "[]"]) (simp add: no_launch_primary(2) no_launch_diagnostic)
  from a b c d show ?thesis by blast
qed

subsection \<open>An empty classification\<close>

text \<open>
  C7. When an attempt that is not the last fails and the classifier finds no identifier in
  the error output of the resolver's execution, the loop ends there with \<^verbatim>\<open>sys.exit(1)\<close>
  after "Failed to resolve dependencies": the trace ends with that execution, so there is
  no installation, no sleep and no further execution of the target.
\<close>

theorem empty_classification_ends_unresolved:
  assumes "attempt < max_attempts"
    and "run_app_in_venv W v a args tr = (False, tr1)"
    and "snd (handle_missing_dependencies W v a args f tr1) =
           tr1 @ ExecTarget argv env piped (Exited rc err) # new"
    and "rc \<noteq> 0"
    and "find_missing_modules W err = []"
  shows "run_loop W v a args f d max_attempts attempt tr =
           (Inl (SystemExit 1 ResolveFailed), tr1 @ [ExecTarget argv env piped (Exited rc err)])"
proof -
  from assms(5) have "identifiers_of W (Exited rc err) = []" by (simp add: identifiers_of_def)
  from handle_missing_dependencies_facts(7) [OF assms(3) this]
  have "new = []" and "fst (handle_missing_dependencies W v a args f tr1) = Inr False" by simp_all
  with assms(3) have "handle_missing_dependencies W v a args f tr1 =
      (Inr False, tr1 @ [ExecTarget argv env piped (Exited rc err)])"
    by (simp add: prod_eq_iff)
  from run_loop_unfold [OF assms(2) this, of d max_attempts attempt] assms(1)
  show ?thesis by simp
qed

theorem empty_classification_ends_unresolved_witness:
  "run_loop world_unrecognised venv0 app0 [] False 2 12 1 [] =
     (Inl (SystemExit 1 ResolveFailed),
      [ExecTarget argv0 env0 False (Exited 1 (str ''boom''))] @
      [ExecTarget argv0 [] True (Exited 1 (str ''boom''))])"
proof -
  have "(1::nat) < 12" and "(1::int) \<noteq> 0" by simp_all
  from empty_classification_ends_unresolved
    [OF this(1) unrecognised_primary unrecognised_diagnostic this(2) boom_unrecognised]
  show ?thesis .
qed

subsection \<open>The force flag\<close>

text \<open>
  C9. The resolver and the whole loop return the same result and the same trace, hence
  install the same packages in the same order, whether \<^verbatim>\<open>force_install\<close> is true or false.
\<close>

theorem force_install_has_no_effect:
  "handle_missing_dependencies W v a args True tr = handle_missing_dependencies W v a args False tr \<and>
   run_application W v a args True d tr = run_application W v a args False d tr"
proof
  show "handle_missing_dependencies W v a args True tr = handle_missing_dependencies W v a args False tr"
    by (simp add: handle_missing_dependencies_def)
  show "run_application W v a args True d tr = run_application W v a args False d tr"
    unfolding run_application_def by (rule run_loop_force_install)
qed

subsection \<open>The two environments of an attempt\<close>

text \<open>
  C10. \<^verbatim>\<open>run_app_in_venv\<close> and \<^verbatim>\<open>handle_missing_dependencies\<close> launch the same command line.
  The first passes an environment whose \<^verbatim>\<open>PYTHONPATH\<close> starts with the directory of the
  target, followed by the separator and the old value when there is one; the second passes
  the environment of the launcher unchanged; the two environments differ.
\<close>

theorem pythonpath_only_in_primary_execution:
  "\<exists>argv env r r' new.
     snd (run_app_in_venv W v a args tr) = tr @ [ExecTarget argv env False r] \<and>
     snd (handle_missing_dependencies W v a args f tr') =
       tr' @ ExecTarget argv (environ W) True r' # new \<and>
     map_of env (str ''PYTHONPATH'') =
       Some (if dict_get (environ W) (str ''PYTHONPATH'') [] \<noteq> []
             then path_str (os_nt W) (parent a) @ pathsep W @
                  dict_get (environ W) (str ''PYTHONPATH'') []
             else path_str (os_nt W) (parent a)) \<and>
     prefix (path_str (os_nt W) (parent a)) (dict_get env (str ''PYTHONPATH'') []) \<and>
     env \<noteq> environ W"
proof -
  define pp where "pp =
    (if dict_get (environ W) (str ''PYTHONPATH'') [] \<noteq> []
     then path_str (os_nt W) (parent a) @ pathsep W @ dict_get (environ W) (str ''PYTHONPATH'') []
     else path_str (os_nt W) (parent a))"
  define env where "env = AList.update (str ''PYTHONPATH'') pp (environ W)"
  define argv where "argv =
    [path_str (os_nt W) (path_div (path_div v (scripts_dir W)) (str ''python'')),
     path_str (os_nt W) a] @ args"
  define r where "r = target_result W tr argv env False"
  define r' where "r' = target_result W tr' argv (environ W) True"
  have "run_app_in_venv W v a args tr =
     (case r of
        Exited returncode err \<Rightarrow>
          if returncode = 0 then (True, tr @ [ExecTarget argv env False r])
          else (False, tr @ [ExecTarget argv env False r])
      | LaunchFailed \<Rightarrow> (False, tr @ [ExecTarget argv env False r]))"
    unfolding r_def argv_def env_def pp_def run_app_in_venv_def Let_def by (rule refl)
  then have 1: "snd (run_app_in_venv W v a args tr) = tr @ [ExecTarget argv env False r]"
    by (cases r) auto
  have "\<exists>rest. snd (handle_missing_dependencies W v a args f tr') =
      tr' @ ExecTarget argv (environ W) True r' # rest"
    unfolding r'_def argv_def by (rule handle_missing_dependencies_trace)
  then obtain new' where 2: "snd (handle_missing_dependencies W v a args f tr') =
      tr' @ ExecTarget argv (environ W) True r' # new'" by blast
  have 3: "map_of env (str ''PYTHONPATH'') = Some pp" by (simp add: env_def update_conv')
  then have g: "dict_get env (str ''PYTHONPATH'') [] = pp" by (simp add: dict_get_def)
  have 4: "prefix (path_str (os_nt W) (parent a)) (dict_get env (str ''PYTHONPATH'') [])"
    unfolding g by (simp add: pp_def)
  have "map_of env (str ''PYTHONPATH'') \<noteq> map_of (environ W) (str ''PYTHONPATH'')"
    unfolding env_def pp_def by (rule pythonpath_changed) (rule path_str_nonempty)
  then have 5: "env \<noteq> environ W" by auto
  from 1 2 3 4 5 show ?thesis unfolding pp_def by blast
qed

end
